theory Spec2Isabelle
  imports Complex_Main "HOL-Library.Word" "HOL-Library.Sublist" "HOL-Library.Extended_Nat"
begin

section \<open>JavaScript strings\<close>

text \<open>
  A JavaScript string is a sequence of 16-bit code units. \<open>js\<close> turns an ASCII literal
  into such a sequence, so that the source's string constants can be written as they are.
\<close>

type_synonym jschar = "16 word"
type_synonym jsstring = "jschar list"

definition js :: "string \<Rightarrow> jsstring" where
  "js s = map of_char s"

abbreviation tilde :: jschar where "tilde \<equiv> 0x7E"
abbreviation lparen :: jschar where "lparen \<equiv> 0x28"
abbreviation rparen :: jschar where "rparen \<equiv> 0x29"
abbreviation apos :: jschar where "apos \<equiv> 0x27"
abbreviation bang :: jschar where "bang \<equiv> 0x21"
abbreviation star :: jschar where "star \<equiv> 0x2A"
abbreviation percent :: jschar where "percent \<equiv> 0x25"
abbreviation minus :: jschar where "minus \<equiv> 0x2D"
abbreviation plus :: jschar where "plus \<equiv> 0x2B"
abbreviation dollar :: jschar where "dollar \<equiv> 0x24"
abbreviation amp :: jschar where "amp \<equiv> 0x26"
abbreviation semicolon :: jschar where "semicolon \<equiv> 0x3B"
abbreviation hashmark :: jschar where "hashmark \<equiv> 0x23"
abbreviation qmark :: jschar where "qmark \<equiv> 0x3F"

text \<open>
  \<open>str.charAt(pos)\<close> on the unread part of the input: \<open>None\<close> stands for the empty
  string that \<open>charAt\<close> returns past the end, which is different from every character.
\<close>

definition peek :: "jsstring \<Rightarrow> jschar option" where
  "peek r = (case r of [] \<Rightarrow> None | c # _ \<Rightarrow> Some c)"

text \<open>\<open>hay.includes(needle)\<close>: the needle starts at some position of the haystack.\<close>

fun str_includes :: "jsstring \<Rightarrow> jsstring \<Rightarrow> bool" where
  "str_includes [] needle = (needle = [])"
| "str_includes (x # xs) needle = (prefix needle (x # xs) \<or> str_includes xs needle)"

text \<open>\<open>parts.join(sep)\<close>.\<close>

fun join :: "jsstring \<Rightarrow> jsstring list \<Rightarrow> jsstring" where
  "join sep [] = []"
| "join sep [p] = p"
| "join sep (p # q # ps) = p @ sep @ join sep (q # ps)"

text \<open>
  \<open>s.replace(/[...]/g, f)\<close> for a character class: every character of the class is
  replaced by what \<open>f\<close> returns for it, the others are copied.
\<close>

definition replace_chars :: "(jschar \<Rightarrow> bool) \<Rightarrow> (jschar \<Rightarrow> jsstring) \<Rightarrow> jsstring \<Rightarrow> jsstring" where
  "replace_chars cls f s = concat (map (\<lambda>c. if cls c then f c else [c]) s)"

section \<open>JavaScript numbers\<close>

text \<open>
  A number is a finite value, NaN or an infinity. Finite values are kept exact (as
  rationals); the rounding of IEEE doubles and the sign of zero are not represented.
\<close>

datatype jsnum = Fin rat | NaN | PosInf | NegInf

definition is_digit :: "jschar \<Rightarrow> bool" where
  "is_digit c = (0x30 \<le> c \<and> c \<le> 0x39)"

text \<open>The value of a sequence of decimal digits, and the decimal digits of a natural number.\<close>

definition digits_value :: "jsstring \<Rightarrow> nat" where
  "digits_value ds = foldl (\<lambda>a c. 10 * a + (unat c - 0x30)) 0 ds"

fun dec_digits :: "nat \<Rightarrow> jsstring" where
  "dec_digits n = (if n < 10 then [of_nat (0x30 + n)] else dec_digits (n div 10) @ [of_nat (0x30 + n mod 10)])"

text \<open>
  A signed decimal integer literal: an optional sign and at least one digit.
\<close>

definition int_literal :: "jsstring \<Rightarrow> int option" where
  "int_literal s =
    (case s of
       [] \<Rightarrow> None
     | c # cs \<Rightarrow>
         if c = minus then (if cs \<noteq> [] \<and> list_all is_digit cs then Some (- int (digits_value cs)) else None)
         else if c = plus then (if cs \<noteq> [] \<and> list_all is_digit cs then Some (int (digits_value cs)) else None)
         else if list_all is_digit (c # cs) then Some (int (digits_value (c # cs)))
         else None)"

section \<open>Values\<close>

text \<open>
  The values that the codec handles. An object is the list of its own properties in the
  order in which \<open>Object.keys\<close> enumerates them. \<open>JObj\<close> is a plain object, whose
  prototype is \<open>Object.prototype\<close>. \<open>JObjP\<close> is an object whose prototype has been
  replaced by an assignment to \<open>__proto__\<close>: by \<open>null\<close> (\<open>None\<close>) or by an array or
  an object (\<open>Some\<close>). An array is the list of its elements; its prototype is always
  \<open>Array.prototype\<close>.
\<close>

datatype jsval =
  Undefined
  | Null
  | JBool bool
  | JNum jsnum
  | JStr jsstring
  | JArr "jsval list"
  | JObj "(jsstring \<times> jsval) list"
  | JObjP "jsval option" "(jsstring \<times> jsval) list"

text \<open>Truthiness, as \<open>!v\<close>, \<open>v || d\<close> and \<open>if (v)\<close> test it.\<close>

definition truthy :: "jsval \<Rightarrow> bool" where
  "truthy v =
    (case v of
       Undefined \<Rightarrow> False
     | Null \<Rightarrow> False
     | JBool b \<Rightarrow> b
     | JNum n \<Rightarrow> n \<noteq> Fin 0 \<and> n \<noteq> NaN
     | JStr s \<Rightarrow> s \<noteq> []
     | JArr _ \<Rightarrow> True
     | JObj _ \<Rightarrow> True
     | JObjP _ _ \<Rightarrow> True)"

section \<open>The platform\<close>

text \<open>
  The functions of the JavaScript platform that the source calls and that are not
  computed here are parameters of the embedding:
  \<^item> \<open>strToNumber\<close>: \<open>Number(text)\<close> for a text that is not empty and not a decimal
    integer literal of magnitude at most \<open>2^53\<close> (fractions, exponents, radix prefixes,
    \<open>Infinity\<close>, surrounding white space, and every text that is not numeric);
  \<^item> \<open>intToNumber\<close>: the number that \<open>parseInt\<close> returns for digits whose integer value
    has a magnitude above \<open>2^53\<close>: the double nearest to the integer, or an infinity;
  \<^item> \<open>numberToStr\<close>: the text of a finite number that is not an integer of magnitude at
    most \<open>2^53\<close>;
  \<^item> \<open>decodeURIComponent\<close> and \<open>encodeURIComponent\<close>, with \<open>None\<close> for the
    \<open>URIError\<close> they throw;
  \<^item> \<open>toJSTString\<close>: the function of that name in the content script, which formats an
    instant through \<open>Intl.DateTimeFormat\<close>; \<open>None\<close> stands for the \<open>RangeError\<close> of
    formatting an invalid date;
  \<^item> \<open>arrayToString\<close>: \<open>Array.prototype.toString\<close> applied to an object that is not
    an array but has an array in its chain of prototypes; \<open>None\<close> stands for an
    exception;
  \<^item> \<open>stringifyOverflows\<close> and \<open>joinOverflows\<close>: whether the engine exhausts its
    call stack, and raises a \<open>RangeError\<close>, while \<open>JSURL.stringify\<close> encodes a value
    and while \<open>Array.prototype.join\<close> joins the elements of an array (both call
    themselves for nested values; the depth that the engine admits depends on the sizes
    of its frames).
\<close>

record platform =
  strToNumber :: "jsstring \<Rightarrow> jsnum"
  intToNumber :: "int \<Rightarrow> jsnum"
  numberToStr :: "rat \<Rightarrow> jsstring"
  decodeURIComponent :: "jsstring \<Rightarrow> jsstring option"
  encodeURIComponent :: "jsstring \<Rightarrow> jsstring option"
  toJSTString :: "jsnum \<Rightarrow> jsstring option"
  arrayToString :: "jsval \<Rightarrow> jsstring option"
  stringifyOverflows :: "jsval \<Rightarrow> bool"
  joinOverflows :: "jsval list \<Rightarrow> bool"

text \<open>\<open>Number(text)\<close>: the empty text is 0, an integer literal is its value.\<close>

definition js_Number :: "platform \<Rightarrow> jsstring \<Rightarrow> jsnum" where
  "js_Number P s =
    (if s = [] then Fin 0
     else case int_literal s of
            Some n \<Rightarrow> if \<bar>n\<bar> \<le> 2 ^ 53 then Fin (of_int n) else strToNumber P s
          | None \<Rightarrow> strToNumber P s)"

text \<open>The text of a finite number, as string concatenation \<open>"~" + v\<close> produces it.\<close>

definition number_text :: "platform \<Rightarrow> rat \<Rightarrow> jsstring" where
  "number_text P r =
    (if of_int \<lfloor>r\<rfloor> = r \<and> \<bar>r\<bar> \<le> 2 ^ 53
       then (if r < 0 then minus # dec_digits (nat (- \<lfloor>r\<rfloor>)) else dec_digits (nat \<lfloor>r\<rfloor>))
     else numberToStr P r)"

text \<open>
  \<open>parseInt(text, radix)\<close> for radix 10 and 16: leading white space and a sign are
  skipped, with radix 16 also a prefix \<open>0x\<close> or \<open>0X\<close>, and the longest run of digits
  of the radix is read. The result is the integer that the digits denote, before it is
  rounded to a number; \<open>None\<close> stands for NaN (no digit).
\<close>

definition is_space :: "jschar \<Rightarrow> bool" where
  "is_space c \<longleftrightarrow>
     c \<in> {0x9, 0xA, 0xB, 0xC, 0xD, 0x20, 0xA0, 0x1680, 0x2028, 0x2029, 0x202F, 0x205F, 0x3000, 0xFEFF}
     \<or> (0x2000 \<le> c \<and> c \<le> 0x200A)"

definition digit_val :: "jschar \<Rightarrow> nat option" where
  "digit_val c =
    (if 0x30 \<le> c \<and> c \<le> 0x39 then Some (unat c - 0x30)
     else if 0x61 \<le> c \<and> c \<le> 0x7A then Some (unat c - 0x61 + 10)
     else if 0x41 \<le> c \<and> c \<le> 0x5A then Some (unat c - 0x41 + 10)
     else None)"

definition radix_digit :: "nat \<Rightarrow> jschar \<Rightarrow> bool" where
  "radix_digit radix c = (case digit_val c of Some d \<Rightarrow> d < radix | None \<Rightarrow> False)"

definition radix_value :: "nat \<Rightarrow> jsstring \<Rightarrow> nat" where
  "radix_value radix ds = foldl (\<lambda>a c. radix * a + the (digit_val c)) 0 ds"

definition js_parseInt :: "jsstring \<Rightarrow> nat \<Rightarrow> int option" where
  "js_parseInt text radix =
    (let s1 = dropWhile is_space text;
         neg = (peek s1 = Some minus);
         s2 = (if peek s1 = Some minus \<or> peek s1 = Some plus then drop 1 s1 else s1);
         s3 = (if radix = 16 \<and> (take 2 s2 = js ''0x'' \<or> take 2 s2 = js ''0X'') then drop 2 s2 else s2);
         ds = takeWhile (radix_digit radix) s3
     in if ds = [] then None
        else Some (if neg then - int (radix_value radix ds) else int (radix_value radix ds)))"

text \<open>
  The number that \<open>parseInt\<close> returns: NaN without a digit, the integer itself up
  to the magnitude \<open>2^53\<close>, where every integer is a double, and beyond it the double
  that the platform rounds to.
\<close>

definition of_parseInt :: "platform \<Rightarrow> int option \<Rightarrow> jsnum" where
  "of_parseInt P x =
    (case x of
       None \<Rightarrow> NaN
     | Some n \<Rightarrow> if \<bar>n\<bar> \<le> 2 ^ 53 then Fin (of_int n) else intToNumber P n)"

text \<open>
  \<open>String.fromCharCode(x)\<close>: the code is reduced modulo \<open>2^16\<close>, and NaN gives the
  code unit 0.
\<close>

definition fromCharCode :: "int option \<Rightarrow> jschar" where
  "fromCharCode x = (case x of None \<Rightarrow> 0 | Some n \<Rightarrow> word_of_int n)"

text \<open>\<open>code.toString(16).toUpperCase()\<close> for a character code.\<close>

definition hex_digit :: "nat \<Rightarrow> jschar" where
  "hex_digit d = (if d < 10 then of_nat (0x30 + d) else of_nat (0x41 + (d - 10)))"

fun hex_upper :: "nat \<Rightarrow> jsstring" where
  "hex_upper n = (if n < 16 then [hex_digit n] else hex_upper (n div 16) @ [hex_digit (n mod 16)])"

section \<open>Properties of objects\<close>

text \<open>
  The creation or update of an own property. An existing property keeps its place. A
  new property whose name is an array index (the decimal text of an integer below
  \<open>2^32 - 1\<close>) is enumerated among the array indices in ascending order, before all
  other names; any other new property comes last.
\<close>

definition is_array_index :: "jsstring \<Rightarrow> bool" where
  "is_array_index k \<longleftrightarrow>
     k \<noteq> [] \<and> list_all is_digit k \<and> (k = js ''0'' \<or> peek k \<noteq> Some 0x30)
     \<and> digits_value k < 4294967295"

fun insert_index :: "jsstring \<Rightarrow> jsval \<Rightarrow> (jsstring \<times> jsval) list \<Rightarrow> (jsstring \<times> jsval) list" where
  "insert_index k v [] = [(k, v)]"
| "insert_index k v ((k', v') # kvs) =
     (if is_array_index k' \<and> digits_value k' < digits_value k
        then (k', v') # insert_index k v kvs
      else (k, v) # (k', v') # kvs)"

definition set_own :: "(jsstring \<times> jsval) list \<Rightarrow> jsstring \<Rightarrow> jsval \<Rightarrow> (jsstring \<times> jsval) list" where
  "set_own kvs k v =
    (if k \<in> fst ` set kvs then map (\<lambda>(k', v'). if k' = k then (k', v) else (k', v')) kvs
     else if is_array_index k then insert_index k v kvs
     else kvs @ [(k, v)])"

text \<open>
  The name \<open>__proto__\<close> denotes an accessor that \<open>Object.prototype\<close> defines.
  \<open>proto_accessor\<close> says that looking up \<open>__proto__\<close> on a value finds this accessor:
  no object on the chain of prototypes has an own property of that name, and the chain
  does not end in \<open>null\<close> before it reaches \<open>Object.prototype\<close>.
\<close>

fun proto_accessor :: "jsval \<Rightarrow> bool" where
  "proto_accessor (JObj kvs) = (js ''__proto__'' \<notin> fst ` set kvs)"
| "proto_accessor (JObjP None kvs) = False"
| "proto_accessor (JObjP (Some x) kvs) = (js ''__proto__'' \<notin> fst ` set kvs \<and> proto_accessor x)"
| "proto_accessor v = True"

text \<open>
  \<open>obj[key] = v\<close> on an object. When the name is \<open>__proto__\<close> and the accessor is
  found, its setter runs: an array or an object becomes the prototype of \<open>obj\<close>,
  \<open>null\<close> removes the prototype, and any other value changes nothing. In every other
  case the own property is created or updated (the properties that the prototypes of
  decoded values hold are writable data properties).
\<close>

definition set_prototype :: "jsval \<Rightarrow> jsval \<Rightarrow> jsval" where
  "set_prototype obj v =
    (let kvs = (case obj of JObj kvs \<Rightarrow> kvs | JObjP p kvs \<Rightarrow> kvs | _ \<Rightarrow> [])
     in case v of
          JArr items \<Rightarrow> JObjP (Some v) kvs
        | JObj ps \<Rightarrow> JObjP (Some v) kvs
        | JObjP p ps \<Rightarrow> JObjP (Some v) kvs
        | Null \<Rightarrow> JObjP None kvs
        | _ \<Rightarrow> obj)"

definition set_prop :: "jsval \<Rightarrow> jsstring \<Rightarrow> jsval \<Rightarrow> jsval" where
  "set_prop obj k v =
    (if k = js ''__proto__'' \<and> proto_accessor obj then set_prototype obj v
     else case obj of
            JObj kvs \<Rightarrow> JObj (set_own kvs k v)
          | JObjP p kvs \<Rightarrow> JObjP p (set_own kvs k v)
          | _ \<Rightarrow> obj)"

text \<open>
  \<open>v.key\<close> for the property names the content script reads (\<open>start\<close>, \<open>end\<close>,
  \<open>timeType\<close>, \<open>unit\<close>, \<open>value\<close>, \<open>timeRange\<close>): an own property of an object,
  or else the property of its prototype, along the chain; \<open>undefined\<close> where the chain
  ends, in an array and on every other value (the script reads properties only of truthy
  values, and no built-in prototype defines these names).
\<close>

fun get_prop :: "jsval \<Rightarrow> jsstring \<Rightarrow> jsval" where
  "get_prop (JObj kvs) k = (case map_of kvs k of Some x \<Rightarrow> x | None \<Rightarrow> Undefined)"
| "get_prop (JObjP None kvs) k = (case map_of kvs k of Some x \<Rightarrow> x | None \<Rightarrow> Undefined)"
| "get_prop (JObjP (Some proto) kvs) k = (case map_of kvs k of Some x \<Rightarrow> x | None \<Rightarrow> get_prop proto k)"
| "get_prop v k = Undefined"

section \<open>The JSURL codec\<close>

text \<open>
  \<open>_encode\<close> with its table \<open>_encodeMap\<close>, which maps the apostrophe to \<open>!\<close> and \<open>!\<close>
  to the apostrophe.
\<close>

definition encode' :: "jschar \<Rightarrow> jsstring" where
  "encode' c =
    (if c = apos then [bang]
     else if c = bang then [apos]
     else if unat c \<le> 0x7f then star # hex_upper (unat c)
     else star # star # hex_upper (unat c))"

text \<open>
  \<open>_stringify\<close>. \<open>stringify_items\<close> is the \<open>map(...).join("")\<close> over the elements of
  an array, \<open>stringify_pairs\<close> the array \<open>pairs\<close> that the \<open>forEach\<close> over the keys of
  an object fills. \<open>Object.keys\<close> lists own properties only, so the prototype of an
  object has no part in its encoding.
\<close>

fun stringify' :: "platform \<Rightarrow> jsval \<Rightarrow> jsstring"
  and stringify_items :: "platform \<Rightarrow> jsval list \<Rightarrow> jsstring"
  and stringify_pairs :: "platform \<Rightarrow> (jsstring \<times> jsval) list \<Rightarrow> jsstring list"
where
  "stringify' P Undefined = []"
| "stringify' P Null = js ''~null''"
| "stringify' P (JNum v) = (case v of Fin r \<Rightarrow> tilde # number_text P r | _ \<Rightarrow> js ''~null'')"
| "stringify' P (JBool b) = (if b then js ''~true'' else js ''~false'')"
| "stringify' P (JStr s) =
     tilde # apos #
       replace_chars (\<lambda>c. c = percent) (\<lambda>c. js ''*25'')
         (replace_chars (\<lambda>c. c = bang \<or> c = apos \<or> c = star) encode' s)"
| "stringify' P (JArr items) = tilde # lparen # stringify_items P items @ [rparen]"
| "stringify' P (JObj kvs) = tilde # lparen # join [tilde] (stringify_pairs P kvs) @ [rparen]"
| "stringify' P (JObjP proto kvs) = tilde # lparen # join [tilde] (stringify_pairs P kvs) @ [rparen]"
| "stringify_items P [] = []"
| "stringify_items P (item # items) =
     (if stringify' P item = [] then js ''~null'' else stringify' P item) @ stringify_items P items"
| "stringify_pairs P [] = []"
| "stringify_pairs P ((key, v) # kvs) =
     (if stringify' P v \<noteq> []
        then (replace_chars (\<lambda>c. c = bang \<or> c = apos \<or> c = star \<or> c = percent) encode' key
                @ stringify' P v) # stringify_pairs P kvs
      else stringify_pairs P kvs)"

definition JSURL_stringify :: "platform \<Rightarrow> jsval \<Rightarrow> jsstring" where
  "JSURL_stringify P v = stringify' P v"

text \<open>
  \<open>_parse\<close> reads the input through a cursor \<open>pos.i\<close> that only moves forward, and every
  access is relative to the cursor. The embedding passes the unread part of the input,
  \<open>drop pos.i str\<close>, and returns it with the value: \<open>pos.i < str.length\<close> is
  \<open>rest \<noteq> []\<close>, \<open>str.charAt(pos.i)\<close> is \<open>peek rest\<close>,
  \<open>str.substring(pos.i, pos.i + n)\<close> is \<open>take n rest\<close>, and \<open>pos.i += n\<close> is
  \<open>drop n rest\<close>.

  The loop that reads the body of a string:
\<close>

fun string_loop :: "jsstring \<Rightarrow> jsstring \<Rightarrow> jsstring \<times> jsstring" where
  "string_loop s [] = (s, [])"
| "string_loop s (c # cs) =
     (if c = tilde \<or> c = rparen then (s, c # cs)
      else if c = bang then string_loop (s @ [apos]) cs
      else if c = star then
        (if peek cs = Some star
           then string_loop (s @ [fromCharCode (js_parseInt (take 4 (drop 1 cs)) 16)]) (drop 5 cs)
         else if peek cs = Some 0x32 \<and> peek (drop 1 cs) = Some 0x35
           then string_loop (s @ [percent]) (drop 2 cs)
         else string_loop (s @ [fromCharCode (js_parseInt (take 2 cs) 16)]) (drop 2 cs))
      else string_loop (s @ [c]) cs)"

text \<open>The loop that reads a key of an object.\<close>

fun key_loop :: "jsstring \<Rightarrow> jsstring \<Rightarrow> jsstring \<times> jsstring" where
  "key_loop key [] = (key, [])"
| "key_loop key (c # cs) =
     (if c = tilde \<or> c = rparen \<or> c = lparen then (key, c # cs)
      else if c = bang then key_loop (key @ [apos]) cs
      else if c = star then
        (if peek cs = Some star
           then key_loop (key @ [fromCharCode (js_parseInt (take 4 (drop 1 cs)) 16)]) (drop 5 cs)
         else key_loop (key @ [fromCharCode (js_parseInt (take 2 cs) 16)]) (drop 2 cs))
      else key_loop (key @ [c]) cs)"

text \<open>
  The test that guards the skipping of the separator \<open>~\<close> after a value of an object:
  the character after the \<open>~\<close> is none of \<open>(\<close>, apostrophe, \<open>n\<close>, \<open>t\<close>, \<open>f\<close>, a digit
  and \<open>-\<close>.
\<close>

definition starts_value :: "jschar option \<Rightarrow> bool" where
  "starts_value c \<longleftrightarrow>
     c = Some lparen \<or> c = Some apos \<or> c = Some 0x6E \<or> c = Some 0x74 \<or> c = Some 0x66
     \<or> (case c of Some d \<Rightarrow> 0x30 \<le> d \<and> d \<le> 0x39 | None \<Rightarrow> False) \<or> c = Some minus"

text \<open>
  \<open>_parse\<close>, with the two \<open>do ... while\<close> loops that fill an array and an object.
  Nothing in the source bounds the number of calls and of iterations, so the functions
  take fuel: one unit for each call of \<open>_parse\<close> and for each iteration of a loop.
  \<open>None\<close> means that the fuel has run out; an input on which the result is \<open>None\<close> for
  every amount of fuel is one on which \<open>_parse\<close> does not return.

  \<open>_parse\<close> calls itself for every element of an array and every value of an object,
  and the engine bounds the nesting of calls. \<open>stack\<close> is the number of nested
  activations of \<open>_parse\<close> that the engine still admits, with \<open>\<infinity>\<close> for an engine
  without a bound; a call beyond the bound throws a \<open>RangeError\<close>, which nothing in
  \<open>_parse\<close> catches.
\<close>

datatype error = RangeError

fun parse' :: "platform \<Rightarrow> enat \<Rightarrow> nat \<Rightarrow> jsstring \<Rightarrow> (error + jsval \<times> jsstring) option"
  and parse_array ::
    "platform \<Rightarrow> enat \<Rightarrow> nat \<Rightarrow> jsval list \<Rightarrow> jsstring \<Rightarrow> (error + jsval \<times> jsstring) option"
  and parse_object ::
    "platform \<Rightarrow> enat \<Rightarrow> nat \<Rightarrow> jsval \<Rightarrow> jsstring \<Rightarrow> (error + jsval \<times> jsstring) option"
where
  "parse' P stack 0 str = None"
| "parse' P stack (Suc n) [] =
     (if stack = 0 then Some (Inl RangeError) else Some (Inr (Undefined, [])))"
| "parse' P stack (Suc n) (c # cs) =
     (if stack = 0 then Some (Inl RangeError)
      else if c = tilde then
        (if peek cs = Some lparen then
           (if peek (drop 1 cs) = Some rparen then Some (Inr (JArr [], drop 2 cs))
            else if peek (drop 1 cs) = Some tilde then parse_array P (stack - 1) n [] (drop 1 cs)
            else parse_object P (stack - 1) n (JObj []) (drop 1 cs))
         else if peek cs = Some apos then
           (case string_loop [] (drop 1 cs) of (s, rest) \<Rightarrow> Some (Inr (JStr s, rest)))
         else if peek cs = Some 0x6E then
           (if take 4 cs = js ''null'' then Some (Inr (Null, drop 4 cs)) else Some (Inr (Undefined, cs)))
         else if peek cs = Some 0x74 then
           (if take 4 cs = js ''true'' then Some (Inr (JBool True, drop 4 cs))
            else Some (Inr (Undefined, cs)))
         else if peek cs = Some 0x66 then
           (if take 5 cs = js ''false'' then Some (Inr (JBool False, drop 5 cs))
            else Some (Inr (Undefined, cs)))
         else
           Some (Inr (JNum (js_Number P (takeWhile (\<lambda>d. d \<noteq> tilde \<and> d \<noteq> rparen) cs)),
                      dropWhile (\<lambda>d. d \<noteq> tilde \<and> d \<noteq> rparen) cs)))
      else Some (Inr (Undefined, c # cs)))"
| "parse_array P stack 0 arr str = None"
| "parse_array P stack (Suc n) arr str =
     (case parse' P stack n str of
        None \<Rightarrow> None
      | Some (Inl e) \<Rightarrow> Some (Inl e)
      | Some (Inr (v, rest)) \<Rightarrow>
          if peek rest \<noteq> Some rparen \<and> rest \<noteq> [] then parse_array P stack n (arr @ [v]) rest
          else Some (Inr (JArr (arr @ [v]), drop 1 rest)))"
| "parse_object P stack 0 obj str = None"
| "parse_object P stack (Suc n) obj str =
     (case key_loop [] str of
        (key, rest1) \<Rightarrow>
          (case parse' P stack n rest1 of
             None \<Rightarrow> None
           | Some (Inl e) \<Rightarrow> Some (Inl e)
           | Some (Inr (v, rest2)) \<Rightarrow>
               (let rest3 = (if peek rest2 = Some tilde \<and> \<not> starts_value (peek (drop 1 rest2))
                             then drop 1 rest2 else rest2)
                in if peek rest3 \<noteq> Some rparen \<and> rest3 \<noteq> []
                     then parse_object P stack n (set_prop obj key v) rest3
                   else Some (Inr (set_prop obj key v, drop 1 rest3)))))"

text \<open>\<open>JSURL.parse\<close>: the empty text gives \<open>undefined\<close>.\<close>

definition JSURL_parse :: "platform \<Rightarrow> enat \<Rightarrow> nat \<Rightarrow> jsstring \<Rightarrow> (error + jsval) option" where
  "JSURL_parse P stack fuel str =
    (if str = [] then Some (Inr Undefined)
     else case parse' P stack fuel str of
            None \<Rightarrow> None
          | Some (Inl e) \<Rightarrow> Some (Inl e)
          | Some (Inr (v, rest)) \<Rightarrow> Some (Inr v))"

text \<open>
  \<open>JSURL.tryParse\<close>: \<open>JSURL.parse(str) || defaultValue\<close> inside a \<open>try\<close> block whose
  \<open>catch\<close> clause returns the default.
\<close>

definition JSURL_tryParse ::
  "platform \<Rightarrow> enat \<Rightarrow> nat \<Rightarrow> jsstring \<Rightarrow> jsval \<Rightarrow> (error + jsval) option" where
  "JSURL_tryParse P stack fuel str defaultValue =
    (case JSURL_parse P stack fuel str of
       None \<Rightarrow> None
     | Some (Inl e) \<Rightarrow> Some (Inr defaultValue)
     | Some (Inr v) \<Rightarrow> Some (Inr (if truthy v then v else defaultValue)))"

section \<open>Regular expressions of the content script\<close>

text \<open>
  The patterns of the content script are sequences of the following items: a literal
  text (matched exactly, or ignoring the case of ASCII letters under the flag \<open>i\<close>),
  one character out of a set, a greedy run of characters outside a set (\<open>[^...]*\<close>),
  an optional character (\<open>-?\<close>) and a non-empty greedy run of decimal digits
  (\<open>\d+\<close>). In each pattern an item that can match texts of different lengths is the
  last item or is followed by an item that rejects every character it accepts, so
  matching the items greedily from left to right finds the match that the backtracking
  matcher of JavaScript finds.
\<close>

datatype rx_item =
  Lit jsstring
  | LitCI jsstring
  | OneOf "jschar list"
  | StarNot "jschar list"
  | OptCh jschar
  | Digits

definition upper_ascii :: "jschar \<Rightarrow> jschar" where
  "upper_ascii c = (if 0x61 \<le> c \<and> c \<le> 0x7A then c - 0x20 else c)"

fun rx_item_match :: "rx_item \<Rightarrow> jsstring \<Rightarrow> (jsstring \<times> jsstring) option" where
  "rx_item_match (Lit l) s = (if prefix l s then Some (l, drop (length l) s) else None)"
| "rx_item_match (LitCI l) s =
     (if length l \<le> length s \<and> map upper_ascii (take (length l) s) = map upper_ascii l
        then Some (take (length l) s, drop (length l) s) else None)"
| "rx_item_match (OneOf cs) s =
     (case s of [] \<Rightarrow> None | c # r \<Rightarrow> if c \<in> set cs then Some ([c], r) else None)"
| "rx_item_match (StarNot cs) s =
     Some (takeWhile (\<lambda>c. c \<notin> set cs) s, dropWhile (\<lambda>c. c \<notin> set cs) s)"
| "rx_item_match (OptCh c) s = (if peek s = Some c then Some ([c], drop 1 s) else Some ([], s))"
| "rx_item_match Digits s =
     (if takeWhile is_digit s = [] then None
      else Some (takeWhile is_digit s, dropWhile is_digit s))"

text \<open>
  A match of a pattern at the start of a text: the texts matched by the items, and the
  rest of the text.
\<close>

fun rx_match :: "rx_item list \<Rightarrow> jsstring \<Rightarrow> (jsstring list \<times> jsstring) option" where
  "rx_match [] s = Some ([], s)"
| "rx_match (i # items) s =
     (case rx_item_match i s of
        None \<Rightarrow> None
      | Some (m, rest) \<Rightarrow>
          (case rx_match items rest of
             None \<Rightarrow> None
           | Some (ms, rest') \<Rightarrow> Some (m # ms, rest')))"

text \<open>
  The leftmost match of a pattern in a text: the text before the match, the texts
  matched by the items, and the text after the match.
\<close>

fun rx_search :: "rx_item list \<Rightarrow> jsstring \<Rightarrow> (jsstring \<times> jsstring list \<times> jsstring) option" where
  "rx_search items [] =
     (case rx_match items [] of None \<Rightarrow> None | Some (ms, rest) \<Rightarrow> Some ([], ms, rest))"
| "rx_search items (c # cs) =
     (case rx_match items (c # cs) of
        Some (ms, rest) \<Rightarrow> Some ([], ms, rest)
      | None \<Rightarrow>
          (case rx_search items cs of
             None \<Rightarrow> None
           | Some (pre, ms, post) \<Rightarrow> Some (c # pre, ms, post)))"

text \<open>
  The expansion of a replacement text by \<open>String.prototype.replace\<close>: \<open>$$\<close> is a
  dollar sign, \<open>$&\<close> the matched text, \<open>$`\<close> the text before the match, \<open>$'\<close> the
  text after it, and \<open>$n\<close> or \<open>$nn\<close> the capture of that number if the pattern has so
  many captures (two digits are tried before one); every other character, and a dollar
  sign that starts none of these, is copied.
\<close>

definition capture_of :: "jsstring list \<Rightarrow> nat \<Rightarrow> jsstring option" where
  "capture_of caps n = (if 1 \<le> n \<and> n \<le> length caps then Some (caps ! (n - 1)) else None)"

fun get_substitution ::
  "jsstring \<Rightarrow> jsstring \<Rightarrow> jsstring \<Rightarrow> jsstring list \<Rightarrow> jsstring \<Rightarrow> jsstring" where
  "get_substitution matched pre post caps [] = []"
| "get_substitution matched pre post caps [c] = [c]"
| "get_substitution matched pre post caps (c # d # ds) =
     (if c \<noteq> dollar then c # get_substitution matched pre post caps (d # ds)
      else if d = dollar then dollar # get_substitution matched pre post caps ds
      else if d = amp then matched @ get_substitution matched pre post caps ds
      else if d = 0x60 then pre @ get_substitution matched pre post caps ds
      else if d = apos then post @ get_substitution matched pre post caps ds
      else if is_digit d then
        (case ds of
           e # es \<Rightarrow>
             (if is_digit e \<and> 10 * (unat d - 0x30) + (unat e - 0x30) \<le> length caps then
                (case capture_of caps (10 * (unat d - 0x30) + (unat e - 0x30)) of
                   Some cap \<Rightarrow> cap @ get_substitution matched pre post caps es
                 | None \<Rightarrow> dollar # d # e # get_substitution matched pre post caps es)
              else
                (case capture_of caps (unat d - 0x30) of
                   Some cap \<Rightarrow> cap @ get_substitution matched pre post caps (e # es)
                 | None \<Rightarrow> dollar # d # get_substitution matched pre post caps (e # es)))
         | [] \<Rightarrow>
             (case capture_of caps (unat d - 0x30) of
                Some cap \<Rightarrow> cap
              | None \<Rightarrow> [dollar, d]))
      else dollar # get_substitution matched pre post caps (d # ds))"

text \<open>
  \<open>text.replace(pattern, replacement)\<close> for a pattern without the flag \<open>g\<close>: the
  leftmost match is replaced by the expanded replacement, and a text without a match is
  returned as it is. \<open>caps\<close> selects the captures of the pattern among the texts
  matched by its items.
\<close>

definition js_replace ::
  "rx_item list \<Rightarrow> (jsstring list \<Rightarrow> jsstring list) \<Rightarrow> jsstring \<Rightarrow> jsstring \<Rightarrow> jsstring" where
  "js_replace items caps replacement text =
    (case rx_search items text of
       None \<Rightarrow> text
     | Some (pre, ms, post) \<Rightarrow>
         pre @ get_substitution (concat ms) pre post (caps ms) replacement @ post)"

text \<open>
  \<open>text.replace(/literal/gi, replacement)\<close> for a non-empty literal and a replacement
  without a dollar sign: every occurrence, from left to right.
\<close>

fun replace_all_ci :: "jsstring \<Rightarrow> jsstring \<Rightarrow> jsstring \<Rightarrow> jsstring" where
  "replace_all_ci l replacement [] = []"
| "replace_all_ci l replacement (c # cs) =
     (if l \<noteq> [] \<and> rx_item_match (LitCI l) (c # cs) \<noteq> None
        then replacement @ replace_all_ci l replacement (drop (length l - 1) cs)
      else c # replace_all_ci l replacement cs)"

section \<open>Number arithmetic and conversions\<close>

text \<open>
  Addition, multiplication and comparison of numbers, exact on finite values, with the
  rules of JavaScript for NaN and the infinities.
\<close>

fun num_add :: "jsnum \<Rightarrow> jsnum \<Rightarrow> jsnum" where
  "num_add (Fin a) (Fin b) = Fin (a + b)"
| "num_add NaN _ = NaN"
| "num_add _ NaN = NaN"
| "num_add PosInf NegInf = NaN"
| "num_add NegInf PosInf = NaN"
| "num_add PosInf _ = PosInf"
| "num_add _ PosInf = PosInf"
| "num_add NegInf _ = NegInf"
| "num_add _ NegInf = NegInf"

fun num_neg :: "jsnum \<Rightarrow> jsnum" where
  "num_neg (Fin a) = Fin (- a)"
| "num_neg NaN = NaN"
| "num_neg PosInf = NegInf"
| "num_neg NegInf = PosInf"

definition num_sub :: "jsnum \<Rightarrow> jsnum \<Rightarrow> jsnum" where
  "num_sub a b = num_add a (num_neg b)"

definition num_sign :: "jsnum \<Rightarrow> int" where
  "num_sign a = (case a of Fin r \<Rightarrow> (if r < 0 then - 1 else if r = 0 then 0 else 1)
                  | NaN \<Rightarrow> 0 | PosInf \<Rightarrow> 1 | NegInf \<Rightarrow> - 1)"

fun num_mul :: "jsnum \<Rightarrow> jsnum \<Rightarrow> jsnum" where
  "num_mul (Fin a) (Fin b) = Fin (a * b)"
| "num_mul NaN _ = NaN"
| "num_mul _ NaN = NaN"
| "num_mul a b =
     (if num_sign a * num_sign b = 0 then NaN
      else if num_sign a * num_sign b > 0 then PosInf else NegInf)"

fun num_less :: "jsnum \<Rightarrow> jsnum \<Rightarrow> bool" where
  "num_less (Fin a) (Fin b) = (a < b)"
| "num_less NaN _ = False"
| "num_less _ NaN = False"
| "num_less NegInf NegInf = False"
| "num_less NegInf _ = True"
| "num_less _ NegInf = False"
| "num_less PosInf _ = False"
| "num_less _ PosInf = True"

text \<open>The text of a number, as \<open>"" + v\<close> produces it.\<close>

definition number_to_string :: "platform \<Rightarrow> jsnum \<Rightarrow> jsstring" where
  "number_to_string P v =
    (case v of Fin r \<Rightarrow> number_text P r | NaN \<Rightarrow> js ''NaN''
     | PosInf \<Rightarrow> js ''Infinity'' | NegInf \<Rightarrow> js ''-Infinity'')"

text \<open>\<open>Math.floor(v / 1000)\<close>.\<close>

definition floor_div_1000 :: "jsnum \<Rightarrow> jsnum" where
  "floor_div_1000 v = (case v of Fin r \<Rightarrow> Fin (of_int \<lfloor>r / 1000\<rfloor>) | _ \<Rightarrow> v)"

text \<open>
  The property \<open>toString\<close> that the conversion of an object to a string looks up along
  the chain of prototypes: a decoded value (an own property of the object or of a
  decoded prototype), the function of \<open>Object.prototype\<close>, the function of
  \<open>Array.prototype\<close> (when the chain reaches an array), or nothing (when the chain ends
  in \<open>null\<close>).
\<close>

datatype toString_property = DecodedValue | ObjectToString | ArrayToString | NoProperty

fun toString_of :: "jsval \<Rightarrow> toString_property" where
  "toString_of (JObj kvs) = (if js ''toString'' \<in> fst ` set kvs then DecodedValue else ObjectToString)"
| "toString_of (JObjP None kvs) = (if js ''toString'' \<in> fst ` set kvs then DecodedValue else NoProperty)"
| "toString_of (JObjP (Some proto) kvs) =
     (if js ''toString'' \<in> fst ` set kvs then DecodedValue else toString_of proto)"
| "toString_of (JArr items) = ArrayToString"
| "toString_of v = NoProperty"

text \<open>
  The conversion of a value to a string, as \<open>parseInt(v, 10)\<close> and a computed property
  name apply it. An object is converted by its \<open>toString\<close>: the function of
  \<open>Object.prototype\<close> returns \<open>[object Object]\<close>, and the function of
  \<open>Array.prototype\<close> is a parameter when the object is not an array. \<open>None\<close> stands
  for the \<open>TypeError\<close> of the other cases: a decoded value is never a function, and then
  neither \<open>toString\<close> nor \<open>valueOf\<close> yields a primitive (the \<open>valueOf\<close> of
  \<open>Object.prototype\<close> returns the object itself) and, for an array, the
  \<open>RangeError\<close> of a call stack that joining exhausts. \<open>elements_to_string\<close> is
  \<open>Array.prototype.join\<close> with a comma on an array, which writes \<open>null\<close> and
  \<open>undefined\<close> as the empty text.
\<close>

fun to_string :: "platform \<Rightarrow> jsval \<Rightarrow> jsstring option"
  and elements_to_string :: "platform \<Rightarrow> jsval list \<Rightarrow> jsstring option"
where
  "to_string P Undefined = Some (js ''undefined'')"
| "to_string P Null = Some (js ''null'')"
| "to_string P (JBool b) = Some (if b then js ''true'' else js ''false'')"
| "to_string P (JNum v) = Some (number_to_string P v)"
| "to_string P (JStr s) = Some s"
| "to_string P (JArr items) = (if joinOverflows P items then None else elements_to_string P items)"
| "to_string P (JObj kvs) =
     (if js ''toString'' \<in> fst ` set kvs then None else Some (js ''[object Object]''))"
| "to_string P (JObjP proto kvs) =
     (case toString_of (JObjP proto kvs) of
        ObjectToString \<Rightarrow> Some (js ''[object Object]'')
      | ArrayToString \<Rightarrow> arrayToString P (JObjP proto kvs)
      | _ \<Rightarrow> None)"
| "elements_to_string P [] = Some []"
| "elements_to_string P (item # items) =
     (case (if item = Undefined \<or> item = Null then Some [] else to_string P item) of
        None \<Rightarrow> None
      | Some s \<Rightarrow>
          (if items = [] then Some s
           else case elements_to_string P items of
                  None \<Rightarrow> None
                | Some t \<Rightarrow> Some (s @ js '','' @ t)))"

text \<open>
  \<open>typeof v === "number" ? v : parseInt(v, 10)\<close>, with \<open>None\<close> for an exception of
  the conversion.
\<close>

definition number_or_parseInt :: "platform \<Rightarrow> jsval \<Rightarrow> jsnum option" where
  "number_or_parseInt P v =
    (case v of
       JNum n \<Rightarrow> Some n
     | _ \<Rightarrow> (case to_string P v of None \<Rightarrow> None | Some s \<Rightarrow> Some (of_parseInt P (js_parseInt s 10))))"

section \<open>Time ranges and parsers\<close>

text \<open>
  The object that a parser returns: \<open>start\<close> and \<open>end\<close> in epoch milliseconds and the
  label \<open>source\<close>. The field \<open>raw\<close> of the source, which records how the range was
  written in the address, is kept as its \<open>type\<close> text.
\<close>

record timeRange =
  tr_start :: jsnum
  tr_end :: jsnum
  tr_source :: jsstring
  tr_raw_type :: jsstring

text \<open>\<open>v != null\<close>: false exactly for \<open>null\<close> and \<open>undefined\<close>.\<close>

definition not_nullish :: "jsval \<Rightarrow> bool" where
  "not_nullish v \<longleftrightarrow> v \<noteq> Null \<and> v \<noteq> Undefined"

text \<open>
  The body of the branch of \<open>parseCloudWatchLogsInsights\<close> that is taken when the
  \<open>start\<close> and \<open>end\<close> fields are present; it is the same text in both copies of the
  content script. \<open>now\<close> is the value of \<open>Date.now()\<close>. \<open>None\<close> stands for an
  exception, which the \<open>catch\<close> clause of the parser turns into \<open>null\<close>.
\<close>

definition insights_start_end :: "platform \<Rightarrow> int \<Rightarrow> jsval \<Rightarrow> timeRange option" where
  "insights_start_end P now obj =
    (if get_prop obj (js ''timeType'') = JStr (js ''RELATIVE'')
        \<or> (case get_prop obj (js ''start'') of JNum n \<Rightarrow> num_less n (Fin 0) | _ \<Rightarrow> False)
     then
       (case number_or_parseInt P (get_prop obj (js ''start'')) of
          None \<Rightarrow> None
        | Some startSec \<Rightarrow>
            Some \<lparr> tr_start = num_add (Fin (of_int now)) (num_mul startSec (Fin 1000)),
                   tr_end = Fin (of_int now),
                   tr_source = js ''CloudWatch Logs Insights'',
                   tr_raw_type = js ''relative'' \<rparr>)
     else
       (case number_or_parseInt P (get_prop obj (js ''start'')) of
          None \<Rightarrow> None
        | Some s \<Rightarrow>
            (case number_or_parseInt P (get_prop obj (js ''end'')) of
               None \<Rightarrow> None
             | Some e \<Rightarrow>
                 Some \<lparr> tr_start = (if num_less s (Fin 1000000000000) then num_mul s (Fin 1000) else s),
                        tr_end = (if num_less e (Fin 1000000000000) then num_mul e (Fin 1000) else e),
                        tr_source = js ''CloudWatch Logs Insights'',
                        tr_raw_type = js ''absolute'' \<rparr>)))"

text \<open>
  The body of the branch for the \<open>unit\<close> and \<open>value\<close> fields. The table
  \<open>multipliers\<close> has the keys \<open>s\<close>, \<open>m\<close>, \<open>h\<close> and \<open>d\<close>; a name that
  \<open>Object.prototype\<close> defines yields a function or an object, with which the product is
  NaN; any other name yields the default 1000.
\<close>

definition object_prototype_names :: "jsstring list" where
  "object_prototype_names =
    [js ''constructor'', js ''__defineGetter__'', js ''__defineSetter__'', js ''hasOwnProperty'',
     js ''__lookupGetter__'', js ''__lookupSetter__'', js ''isPrototypeOf'',
     js ''propertyIsEnumerable'', js ''toString'', js ''valueOf'', js ''__proto__'',
     js ''toLocaleString'']"

definition multiplier :: "jsstring \<Rightarrow> jsnum" where
  "multiplier unit =
    (if unit = js ''s'' then Fin 1000
     else if unit = js ''m'' then Fin 60000
     else if unit = js ''h'' then Fin 3600000
     else if unit = js ''d'' then Fin 86400000
     else if unit \<in> set object_prototype_names then NaN
     else Fin 1000)"

definition insights_unit_value :: "platform \<Rightarrow> int \<Rightarrow> jsval \<Rightarrow> timeRange option" where
  "insights_unit_value P now2 obj =
    (case to_string P (get_prop obj (js ''unit'')) of
       None \<Rightarrow> None
     | Some unit \<Rightarrow>
         (case to_string P (get_prop obj (js ''value'')) of
            None \<Rightarrow> None
          | Some text \<Rightarrow>
              Some \<lparr> tr_start = num_sub (Fin (of_int now2))
                                  (num_mul (of_parseInt P (js_parseInt text 10)) (multiplier unit)),
                     tr_end = Fin (of_int now2),
                     tr_source = js ''CloudWatch Logs Insights'',
                     tr_raw_type = js ''relative'' \<rparr>))"

text \<open>
  \<open>parseCloudWatchLogsInsights\<close> of \<open>src/unnamed/part_001\<close>. The result is \<open>None\<close>
  when the decoder does not return, \<open>Some None\<close> for \<open>null\<close>, and \<open>Some (Some r)\<close>
  for a time range. \<open>stack\<close> is the number of nested activations of \<open>_parse\<close> that the
  engine admits. \<open>insights_decode\<close> is the first part of the function, which obtains
  \<open>obj\<close> from Format A and, if that gives nothing, from Format B. An exception in
  Format A is caught by the inner \<open>catch\<close> clause, which leaves \<open>obj\<close> \<open>null\<close>; an
  exception in Format B reaches the \<open>catch\<close> clause of the function, which returns
  \<open>null\<close>.
\<close>

definition insights_formatA :: "platform \<Rightarrow> enat \<Rightarrow> nat \<Rightarrow> jsstring \<Rightarrow> jsval option" where
  "insights_formatA P stack fuel hash =
    (case rx_search [Lit (js ''queryDetail=''), StarNot [amp, semicolon]] hash of
       Some (pre, [lit, encoded], post) \<Rightarrow>
         (case decodeURIComponent P (replace_chars (\<lambda>c. c = dollar) (\<lambda>c. [percent]) encoded) of
            None \<Rightarrow> Some Null
          | Some decoded \<Rightarrow>
              (case JSURL_tryParse P stack fuel decoded Null of
                 None \<Rightarrow> None
               | Some (Inl e) \<Rightarrow> Some Null
               | Some (Inr obj) \<Rightarrow> Some obj))
     | _ \<Rightarrow> Some Null)"

definition insights_formatB :: "platform \<Rightarrow> enat \<Rightarrow> nat \<Rightarrow> jsstring \<Rightarrow> (error + jsval) option" where
  "insights_formatB P stack fuel hash =
    (case rx_search [LitCI (js ''queryDetail$3D''), StarNot [amp, semicolon]] hash of
       Some (pre, [lit, raw], post) \<Rightarrow> JSURL_tryParse P stack fuel raw Null
     | _ \<Rightarrow> Some (Inr Null))"

definition insights_decode :: "platform \<Rightarrow> enat \<Rightarrow> nat \<Rightarrow> jsstring \<Rightarrow> (error + jsval) option" where
  "insights_decode P stack fuel hash =
    (case insights_formatA P stack fuel hash of
       None \<Rightarrow> None
     | Some obj \<Rightarrow> if \<not> truthy obj then insights_formatB P stack fuel hash else Some (Inr obj))"

definition parseCloudWatchLogsInsights ::
  "platform \<Rightarrow> enat \<Rightarrow> nat \<Rightarrow> int \<Rightarrow> jsstring \<Rightarrow> timeRange option option" where
  "parseCloudWatchLogsInsights P stack fuel now hash =
    (case insights_decode P stack fuel hash of
       None \<Rightarrow> None
     | Some (Inl e) \<Rightarrow> Some None
     | Some (Inr obj) \<Rightarrow>
         Some (if \<not> truthy obj then None
               else if not_nullish (get_prop obj (js ''start'')) \<and> not_nullish (get_prop obj (js ''end''))
                 then insights_start_end P now obj
               else if truthy (get_prop obj (js ''unit'')) \<and> truthy (get_prop obj (js ''value''))
                 then insights_unit_value P now obj
               else None))"

text \<open>
  \<open>parseCloudWatchLogsInsights\<close> of \<open>src/content/content.js\<close>: Format A only, an
  error of \<open>decodeURIComponent\<close> ends the function with \<open>null\<close>, and the presence of
  \<open>start\<close> and \<open>end\<close> is tested by truthiness.
\<close>

definition content_parseCloudWatchLogsInsights ::
  "platform \<Rightarrow> enat \<Rightarrow> nat \<Rightarrow> int \<Rightarrow> jsstring \<Rightarrow> timeRange option option" where
  "content_parseCloudWatchLogsInsights P stack fuel now hash =
    (case rx_search [Lit (js ''queryDetail=''), StarNot [amp, semicolon]] hash of
       Some (pre, [lit, encoded], post) \<Rightarrow>
         (case decodeURIComponent P (replace_chars (\<lambda>c. c = dollar) (\<lambda>c. [percent]) encoded) of
            None \<Rightarrow> Some None
          | Some decoded \<Rightarrow>
              (case JSURL_tryParse P stack fuel decoded Null of
                 None \<Rightarrow> None
               | Some (Inl e) \<Rightarrow> Some None
               | Some (Inr obj) \<Rightarrow>
                   Some (if \<not> truthy obj then None
                         else if truthy (get_prop obj (js ''start'')) \<and> truthy (get_prop obj (js ''end''))
                           then insights_start_end P now obj
                         else if truthy (get_prop obj (js ''unit'')) \<and> truthy (get_prop obj (js ''value''))
                           then insights_unit_value P now obj
                         else None)))
     | _ \<Rightarrow> Some None)"

text \<open>
  \<open>parseCloudWatchLogs\<close> of \<open>src/unnamed/part_001\<close>. \<open>logs_normalized\<close> is the
  variable \<open>normalized\<close>, \<open>logs_startVal\<close> and \<open>logs_endVal\<close> are the variables
  \<open>startVal\<close> and \<open>endVal\<close> (\<open>None\<close> where the pattern has no match).
\<close>

definition logs_normalized :: "jsstring \<Rightarrow> jsstring" where
  "logs_normalized hash =
    replace_all_ci (js ''$26'') (js ''&'')
      (replace_all_ci (js ''$3D'') (js ''='')
        (replace_all_ci (js ''$3F'') (js ''?'') hash))"

definition int_param :: "platform \<Rightarrow> jsstring \<Rightarrow> jsstring \<Rightarrow> jsnum option" where
  "int_param P name text =
    (case rx_search [OneOf [qmark, amp], Lit name, OptCh minus, Digits] text of
       Some (pre, [lead, lit, sign, digits], post) \<Rightarrow> Some (of_parseInt P (js_parseInt (sign @ digits) 10))
     | _ \<Rightarrow> None)"

definition logs_startVal :: "platform \<Rightarrow> jsstring \<Rightarrow> jsnum option" where
  "logs_startVal P hash = int_param P (js ''start='') (logs_normalized hash)"

definition logs_endVal :: "platform \<Rightarrow> jsstring \<Rightarrow> jsnum option" where
  "logs_endVal P hash = int_param P (js ''end='') (logs_normalized hash)"

definition parseCloudWatchLogs :: "platform \<Rightarrow> int \<Rightarrow> jsstring \<Rightarrow> timeRange option" where
  "parseCloudWatchLogs P now hash =
    (case logs_startVal P hash of
       None \<Rightarrow> None
     | Some startVal \<Rightarrow>
         (let result =
            (if num_less startVal (Fin 0) then
               \<lparr> tr_start = num_add (Fin (of_int now)) startVal,
                 tr_end = (case logs_endVal P hash of
                             Some endVal \<Rightarrow>
                               if num_less endVal (Fin 0) then num_add (Fin (of_int now)) endVal
                               else Fin (of_int now)
                           | None \<Rightarrow> Fin (of_int now)),
                 tr_source = js ''CloudWatch Logs'',
                 tr_raw_type = js ''relative'' \<rparr>
             else
               \<lparr> tr_start = startVal,
                 tr_end = (case logs_endVal P hash of Some endVal \<Rightarrow> endVal | None \<Rightarrow> Fin (of_int now)),
                 tr_source = js ''CloudWatch Logs'',
                 tr_raw_type = js ''absolute'' \<rparr>)
          in if tr_start result = NaN \<or> tr_end result = NaN then None else Some result))"

section \<open>Injectors\<close>

text \<open>
  \<open>v.key = x\<close> in strict mode, for the property names that the injectors assign
  (\<open>start\<close>, \<open>end\<close>, \<open>timeType\<close>, \<open>timeRange\<close>). On an object the own property
  is created or updated.
  On an array the assignment creates a property that is not an element, which neither
  \<open>Array.isArray\<close> nor \<open>map\<close> sees, so the array as \<open>_stringify\<close> reads it is
  unchanged. On any other value the assignment throws a \<open>TypeError\<close> (\<open>None\<close>).
\<close>

definition assign_prop :: "jsval \<Rightarrow> jsstring \<Rightarrow> jsval \<Rightarrow> jsval option" where
  "assign_prop v k x =
    (case v of
       JObj kvs \<Rightarrow> Some (set_prop v k x)
     | JObjP proto kvs \<Rightarrow> Some (set_prop v k x)
     | JArr items \<Rightarrow> Some (JArr items)
     | _ \<Rightarrow> None)"

text \<open>
  \<open>window.location.hash = v\<close>, followed by reading \<open>window.location.hash\<close>: the setter
  drops one leading \<open>#\<close>, the getter returns the empty text for an empty fragment and
  otherwise \<open>#\<close> and the fragment. (The setter also percent-encodes the characters that
  a fragment cannot hold; this is not represented.) An injector that returns \<open>true\<close> is
  modelled by the fragment it leaves in the address, read in this way.
\<close>

definition strip_hash :: "jsstring \<Rightarrow> jsstring" where
  "strip_hash v = (if peek v = Some hashmark then drop 1 v else v)"

definition assign_hash :: "jsstring \<Rightarrow> jsstring" where
  "assign_hash v = (if strip_hash v = [] then [] else hashmark # strip_hash v)"

text \<open>
  The injectors of \<open>src/unnamed/part_001\<close>. The result is \<open>None\<close> when the decoder does
  not return, \<open>Some None\<close> for \<open>false\<close> (nothing is written), and \<open>Some (Some h)\<close> for
  \<open>true\<close> with the new fragment \<open>h\<close>. An exception inside the \<open>try\<close> block gives
  \<open>false\<close>: the \<open>RangeError\<close> of formatting an invalid date, the \<open>TypeError\<close> of
  an assignment to a property of a primitive value, the \<open>URIError\<close> of
  \<open>encodeURIComponent\<close>, and the \<open>RangeError\<close> of a call stack that
  \<open>JSURL.stringify\<close> exhausts. \<open>stack\<close> is the number of nested activations of
  \<open>_parse\<close> that the engine admits.
\<close>

definition injectCloudWatchMetrics ::
  "platform \<Rightarrow> enat \<Rightarrow> nat \<Rightarrow> timeRange \<Rightarrow> jsstring \<Rightarrow> jsstring option option" where
  "injectCloudWatchMetrics P stack fuel timeRange hash =
    (case rx_search [Lit (js ''graph=''), StarNot [amp, semicolon]] hash of
       Some (pre, [lit, graphStr], post) \<Rightarrow>
         (case JSURL_tryParse P stack fuel graphStr Null of
            None \<Rightarrow> None
          | Some (Inl e) \<Rightarrow> Some None
          | Some (Inr graphObj) \<Rightarrow>
              Some (if \<not> truthy graphObj then None
                    else case toJSTString P (tr_start timeRange) of
                      None \<Rightarrow> None
                    | Some startText \<Rightarrow>
                        (case assign_prop graphObj (js ''start'') (JStr startText) of
                           None \<Rightarrow> None
                         | Some obj1 \<Rightarrow>
                             (case toJSTString P (tr_end timeRange) of
                                None \<Rightarrow> None
                              | Some endText \<Rightarrow>
                                  (case assign_prop obj1 (js ''end'') (JStr endText) of
                                     None \<Rightarrow> None
                                   | Some obj2 \<Rightarrow>
                                       if stringifyOverflows P obj2 then None
                                       else Some (assign_hash
                                         (js_replace [Lit (js ''graph=''), StarNot [amp, semicolon]]
                                            (\<lambda>ms. [])
                                            (js ''graph='' @ JSURL_stringify P obj2) hash)))))))
     | _ \<Rightarrow> Some None)"

text \<open>
  \<open>injectCloudWatchLogsInsights\<close>. \<open>insights_decode_format\<close> is the first part of the
  function: the decoded object and the flag \<open>isFormatB\<close>.
\<close>

definition insights_decode_format ::
  "platform \<Rightarrow> enat \<Rightarrow> nat \<Rightarrow> jsstring \<Rightarrow> (error + jsval \<times> bool) option" where
  "insights_decode_format P stack fuel hash =
    (case insights_formatA P stack fuel hash of
       None \<Rightarrow> None
     | Some obj \<Rightarrow>
         if \<not> truthy obj then
           (case rx_search [LitCI (js ''queryDetail$3D''), StarNot [amp, semicolon]] hash of
              Some (pre, [lit, raw], post) \<Rightarrow>
                (case JSURL_tryParse P stack fuel raw Null of
                   None \<Rightarrow> None
                 | Some (Inl e) \<Rightarrow> Some (Inl e)
                 | Some (Inr objB) \<Rightarrow> Some (Inr (objB, True)))
            | _ \<Rightarrow> Some (Inr (obj, False)))
         else Some (Inr (obj, False)))"

definition injectCloudWatchLogsInsights ::
  "platform \<Rightarrow> enat \<Rightarrow> nat \<Rightarrow> timeRange \<Rightarrow> jsstring \<Rightarrow> jsstring option option" where
  "injectCloudWatchLogsInsights P stack fuel timeRange hash =
    (case insights_decode_format P stack fuel hash of
       None \<Rightarrow> None
     | Some (Inl e) \<Rightarrow> Some None
     | Some (Inr (obj, isFormatB)) \<Rightarrow>
         Some (if \<not> truthy obj then None
               else case assign_prop obj (js ''start'') (JNum (floor_div_1000 (tr_start timeRange))) of
                 None \<Rightarrow> None
               | Some obj1 \<Rightarrow>
                   (case assign_prop obj1 (js ''end'') (JNum (floor_div_1000 (tr_end timeRange))) of
                      None \<Rightarrow> None
                    | Some obj2 \<Rightarrow>
                        (case assign_prop obj2 (js ''timeType'') (JStr (js ''ABSOLUTE'')) of
                           None \<Rightarrow> None
                         | Some obj3 \<Rightarrow>
                             if stringifyOverflows P obj3 then None
                             else if isFormatB then
                               Some (assign_hash
                                 (js_replace [LitCI (js ''queryDetail$3D''), StarNot [amp, semicolon]]
                                    (\<lambda>ms. [])
                                    (js ''queryDetail$3D'' @ JSURL_stringify P obj3) hash))
                             else
                               (case encodeURIComponent P (JSURL_stringify P obj3) of
                                  None \<Rightarrow> None
                                | Some enc \<Rightarrow>
                                    Some (assign_hash
                                      (js_replace [Lit (js ''queryDetail=''), StarNot [amp, semicolon]]
                                         (\<lambda>ms. [])
                                         (js ''queryDetail=''
                                            @ replace_chars (\<lambda>c. c = percent) (\<lambda>c. [dollar]) enc)
                                         hash)))))))"

text \<open>
  \<open>injectCloudWatchLogs\<close>, with \<open>None\<close> for \<open>false\<close> and \<open>Some h\<close> for \<open>true\<close> with
  the new fragment \<open>h\<close>. The function has no failing path of its own: it returns
  \<open>true\<close> unless an exception occurs, and none of its statements throws.
\<close>

definition injectCloudWatchLogs :: "platform \<Rightarrow> timeRange \<Rightarrow> jsstring \<Rightarrow> jsstring option" where
  "injectCloudWatchLogs P timeRange hash =
    (let startMs = number_to_string P (tr_start timeRange);
         endMs = number_to_string P (tr_end timeRange)
     in if str_includes hash (js ''$3F'') \<or> str_includes hash (js ''$3D'') then
          (let newHash1 =
                 (if rx_search [LitCI (js ''$3Fstart$3D''), OptCh minus, Digits] hash \<noteq> None
                    then js_replace [LitCI (js ''$3Fstart$3D''), OptCh minus, Digits] (\<lambda>ms. [])
                           (js ''$3Fstart$3D'' @ startMs) hash
                  else hash);
               newHash2 =
                 (if rx_search [LitCI (js ''$26end$3D''), OptCh minus, Digits] newHash1 \<noteq> None
                    then js_replace [LitCI (js ''$26end$3D''), OptCh minus, Digits] (\<lambda>ms. [])
                           (js ''$26end$3D'' @ endMs) newHash1
                  else if str_includes newHash1 (js ''$3Fstart$3D'')
                    then js_replace [LitCI (js ''$3Fstart$3D''), OptCh minus, Digits] (\<lambda>ms. [concat ms])
                           (js ''$1$26end$3D'' @ endMs) newHash1
                  else newHash1)
           in Some (assign_hash (strip_hash newHash2)))
        else
          (let normalized1 =
                 js_replace [OneOf [qmark, amp], Lit (js ''start=''), OptCh minus, Digits]
                   (\<lambda>ms. [concat (take 1 ms)]) (js ''$1start='' @ startMs) hash;
               normalized2 =
                 (if rx_search [OneOf [qmark, amp], Lit (js ''end=''), OptCh minus, Digits] normalized1 \<noteq> None
                    then js_replace [OneOf [qmark, amp], Lit (js ''end=''), OptCh minus, Digits]
                           (\<lambda>ms. [concat (take 1 ms)]) (js ''$1end='' @ endMs) normalized1
                  else js_replace [Lit (js ''?start=''), OptCh minus, Digits] (\<lambda>ms. [concat ms])
                         (js ''$1&end='' @ endMs) normalized1)
           in Some (assign_hash (strip_hash normalized2))))"


text \<open>
  \<open>searchParams.set(name, value)\<close>: the first pair of that name takes the value and the
  other pairs of that name are removed; without such a pair, the pair is appended.
\<close>

fun params_set :: "jsstring \<Rightarrow> jsstring \<Rightarrow> (jsstring \<times> jsstring) list \<Rightarrow> (jsstring \<times> jsstring) list" where
  "params_set name v [] = [(name, v)]"
| "params_set name v ((k, x) # ps) =
     (if k = name then (k, v) # filter (\<lambda>(k', x'). k' \<noteq> name) ps
      else (k, x) # params_set name v ps)"



text \<open>
  \<open>injectCloudWatchGeneric\<close>. \<open>hash.indexOf("?~(")\<close> is the length of the text before
  the leftmost occurrence; \<open>prefix\<close> ends with the question mark and \<open>stateStr\<close>
  starts after it. A state that decodes to nothing is replaced by a fresh object.
\<close>

definition injectCloudWatchGeneric ::
  "platform \<Rightarrow> enat \<Rightarrow> nat \<Rightarrow> timeRange \<Rightarrow> jsstring \<Rightarrow> jsstring option option" where
  "injectCloudWatchGeneric P stack fuel timeRange hash =
    (case rx_search [Lit (js ''?~('')] hash of
       Some (pre, ms, post) \<Rightarrow>
         (case JSURL_tryParse P stack fuel (js ''~('' @ post) Null of
            None \<Rightarrow> None
          | Some (Inl e) \<Rightarrow> Some None
          | Some (Inr parsed) \<Rightarrow>
              Some (case assign_prop (if \<not> truthy parsed then JObj [] else parsed) (js ''timeRange'')
                           (JArr [JNum (tr_start timeRange), JNum (tr_end timeRange)]) of
                      None \<Rightarrow> None
                    | Some stateObj \<Rightarrow>
                        if stringifyOverflows P stateObj then None
                        else Some (assign_hash (strip_hash (pre @ js ''?'') @ JSURL_stringify P stateObj))))
     | None \<Rightarrow> Some None)"

text \<open>
  The property that an injector touches only a located part of a text: \<open>b\<close> is \<open>a\<close>
  with the leftmost match of the pattern replaced by some text.
\<close>

definition rewrites_match :: "rx_item list \<Rightarrow> jsstring \<Rightarrow> jsstring \<Rightarrow> bool" where
  "rewrites_match items a b =
    (case rx_search items a of
       None \<Rightarrow> False
     | Some (pre, ms, post) \<Rightarrow>
         prefix pre b \<and> suffix post b \<and> length pre + length post \<le> length b)"

section \<open>A platform for examples\<close>

text \<open>
  The examples below are evaluated on a platform that covers the ASCII part of the
  URI functions: \<open>decodeURIComponent\<close> decodes the escapes \<open>%XX\<close> below \<open>%80\<close> and
  throws on a \<open>%\<close> that is not followed by two hexadecimal digits;
  \<open>encodeURIComponent\<close> keeps letters, digits and \<open>- _ . ! ~ * ' ( )\<close> and escapes
  every other ASCII character. \<open>toJSTString\<close> is tabulated at the two instants that the
  examples use (2023-11-14T22:13:20Z and one hour later, in the time zone of Tokyo).
  Escapes from \<open>%80\<close> on, characters outside ASCII, other instants, the texts of
  numbers that are not integers, integers beyond \<open>2^53\<close> and objects that inherit from
  an array are outside what the examples use. The call stack of the examples admits ten
  thousand nested activations of \<open>_parse\<close>, and it is not exhausted by encoding or
  joining the values of the examples, which nest a few levels.
\<close>

fun percent_decode :: "jsstring \<Rightarrow> jsstring option" where
  "percent_decode [] = Some []"
| "percent_decode (c # cs) =
     (if c = percent then
        (case cs of
           h1 # h2 # rest \<Rightarrow>
             (if radix_digit 16 h1 \<and> radix_digit 16 h2 \<and> radix_value 16 [h1, h2] < 0x80
                then map_option ((#) (of_nat (radix_value 16 [h1, h2]))) (percent_decode rest)
              else None)
         | _ \<Rightarrow> None)
      else map_option ((#) c) (percent_decode cs))"

definition uri_unreserved :: "jschar \<Rightarrow> bool" where
  "uri_unreserved c \<longleftrightarrow>
     (0x41 \<le> c \<and> c \<le> 0x5A) \<or> (0x61 \<le> c \<and> c \<le> 0x7A) \<or> (0x30 \<le> c \<and> c \<le> 0x39)
     \<or> c \<in> {minus, 0x5F, 0x2E, bang, tilde, star, apos, lparen, rparen}"

fun percent_encode :: "jsstring \<Rightarrow> jsstring option" where
  "percent_encode [] = Some []"
| "percent_encode (c # cs) =
     (if uri_unreserved c then map_option ((#) c) (percent_encode cs)
      else if c < 0x80
        then map_option (\<lambda>r. percent # hex_digit (unat c div 16) # hex_digit (unat c mod 16) # r)
               (percent_encode cs)
      else None)"

definition ascii_platform :: platform where
  "ascii_platform =
    \<lparr> strToNumber = (\<lambda>s. NaN),
      intToNumber = (\<lambda>n. NaN),
      numberToStr = (\<lambda>r. []),
      decodeURIComponent = percent_decode,
      encodeURIComponent = percent_encode,
      toJSTString = (\<lambda>t. if t = Fin 1700000000000 then Some (js ''2023-11-15T07:13:20.000'')
                          else if t = Fin 1700003600000 then Some (js ''2023-11-15T08:13:20.000'')
                          else None),
      arrayToString = (\<lambda>v. None),
      stringifyOverflows = (\<lambda>v. False),
      joinOverflows = (\<lambda>items. False) \<rparr>"

definition example_stack :: enat where
  "example_stack = enat 10000"

section \<open>Example addresses\<close>

text \<open>
  The fragments of the addresses that the repository's notes on URL patterns record for
  Logs Insights (Format A and Format B, both in Relative mode with \<open>end\<close> 0), and two
  Log Events fragments in the form that the notes record: one with a relative \<open>start\<close>
  and an absolute \<open>end\<close>, and one with an absolute \<open>start\<close> and a relative \<open>end\<close>.
\<close>

definition insights_hashA :: jsstring where
  "insights_hashA =
     js ''#logsV2:log-groups/logs-insights?queryDetail=~$28end~0~start~-3600~timeType~$27RELATIVE$29''"

definition insights_hashB :: jsstring where
  "insights_hashB =
     js ''#logsV2:logs-insights$3FqueryDetail$3D~(end~0~start~-43200~timeType~'RELATIVE)''"

definition logs_hash :: jsstring where
  "logs_hash =
     js ''#logsV2:log-groups/log-group/RDSOSMetrics/log-events/db-XXXXX$3Fstart$3D-1800000$26end$3D1700000000000''"

definition logs_hash_absolute_start :: jsstring where
  "logs_hash_absolute_start =
     js ''#logsV2:log-groups/log-group/RDSOSMetrics/log-events/db-XXXXX$3Fstart$3D1700000000000$26end$3D-1800000''"

text \<open>
  A time range to inject (2023-11-14T22:13:20Z and one hour later), an X-Ray address
  without any \<open>timeRange\<close> parameter, and a Log Events address whose fragment itself
  starts with \<open>#\<close> (the address ends in \<open>home##logsV2:...\<close>).
\<close>

definition example_range :: timeRange where
  "example_range =
     \<lparr> tr_start = Fin 1700000000000, tr_end = Fin 1700003600000,
       tr_source = js ''CloudWatch Logs'', tr_raw_type = js ''absolute'' \<rparr>"


definition logs_double_hash :: jsstring where
  "logs_double_hash = js ''##logsV2:log-groups/log-group/g/log-events/s?start=-1800000&tab=x''"

definition metrics_hash :: jsstring where
  "metrics_hash = js ''#metricsV2:graph=~(view~'timeSeries~start~'-PT3H~end~'P0D)&query=abc''"


text \<open>
  A state that nests ten thousand arrays around a number, one level more than the call
  stack of the examples admits activations of \<open>_parse\<close> for.
\<close>

definition deep_state :: jsstring where
  "deep_state = concat (replicate 10000 (js ''~('')) @ js ''~1''"

section \<open>Values that the codec reproduces\<close>

text \<open>
  The values for which decoding the encoding gives the value back, as predicates on
  values: numbers are integers of magnitude at most \<open>2^53\<close>; a string contains none of
  \<open>!\<close>, \<open>~\<close> and \<open>)\<close>; a key contains none of \<open>!\<close>, \<open>~\<close>, \<open>)\<close> and \<open>(\<close> and is not
  \<open>__proto__\<close>; a map is a plain object that is not empty, its keys are distinct, its
  first key is not empty, and its other keys do not begin with \<open>n\<close>, \<open>t\<close>, \<open>f\<close>,
  \<open>-\<close> or a digit.
\<close>

definition safe_string :: "jsstring \<Rightarrow> bool" where
  "safe_string s = list_all (\<lambda>c. c \<noteq> bang \<and> c \<noteq> tilde \<and> c \<noteq> rparen) s"

definition safe_key :: "jsstring \<Rightarrow> bool" where
  "safe_key k \<longleftrightarrow>
     list_all (\<lambda>c. c \<noteq> bang \<and> c \<noteq> tilde \<and> c \<noteq> rparen \<and> c \<noteq> lparen) k \<and> k \<noteq> js ''__proto__''"

definition later_key :: "jsstring \<Rightarrow> bool" where
  "later_key k =
    (case k of
       [] \<Rightarrow> True
     | c # _ \<Rightarrow> c \<noteq> 0x6E \<and> c \<noteq> 0x74 \<and> c \<noteq> 0x66 \<and> c \<noteq> minus \<and> \<not> is_digit c)"

definition safe_number :: "jsnum \<Rightarrow> bool" where
  "safe_number v = (case v of Fin r \<Rightarrow> of_int \<lfloor>r\<rfloor> = r \<and> \<bar>r\<bar> \<le> 2 ^ 53 | _ \<Rightarrow> False)"

fun safe_value :: "jsval \<Rightarrow> bool"
  and safe_values :: "jsval list \<Rightarrow> bool"
  and safe_pairs :: "(jsstring \<times> jsval) list \<Rightarrow> bool"
where
  "safe_value Undefined = False"
| "safe_value Null = True"
| "safe_value (JBool b) = True"
| "safe_value (JNum v) = safe_number v"
| "safe_value (JStr s) = safe_string s"
| "safe_value (JArr items) = safe_values items"
| "safe_value (JObj kvs) =
     (kvs \<noteq> [] \<and> fst (hd kvs) \<noteq> [] \<and> distinct (map fst kvs)
      \<and> list_all later_key (map fst (tl kvs)) \<and> safe_pairs kvs)"
| "safe_value (JObjP proto kvs) = False"
| "safe_values [] = True"
| "safe_values (item # items) = (safe_value item \<and> safe_values items)"
| "safe_pairs [] = True"
| "safe_pairs ((k, v) # kvs) = (safe_key k \<and> safe_value v \<and> safe_pairs kvs)"

text \<open>An example value: nested containers, a negative number, zero, the empty string,
  and strings with an apostrophe, a percent sign, an asterisk and a character outside
  ASCII.\<close>

definition example_value :: jsval where
  "example_value =
     JArr [Null, JNum (Fin (- 3)), JNum (Fin 0), JStr [], JStr (js ''it's 5%*''), JStr [0xE9],
           JObj [(js ''a'', JBool True), (js ''b'', JArr []), (js ''c%'', JObj [(js ''0'', JBool False)])]]"

section \<open>Notions for the round trip\<close>

text \<open>
  The decimal text of an integer, and the texts that \<open>_stringify\<close> writes for the body
  of a string and for a key.
\<close>

definition int_text :: "int \<Rightarrow> jsstring" where
  "int_text n = (if n < 0 then minus # dec_digits (nat (- n)) else dec_digits (nat n))"

definition string_body :: "jsstring \<Rightarrow> jsstring" where
  "string_body s =
     replace_chars (\<lambda>c. c = percent) (\<lambda>c. js ''*25'')
       (replace_chars (\<lambda>c. c = bang \<or> c = apos \<or> c = star) encode' s)"

definition key_text :: "jsstring \<Rightarrow> jsstring" where
  "key_text k = replace_chars (\<lambda>c. c = bang \<or> c = apos \<or> c = star \<or> c = percent) encode' k"

text \<open>
  A value ends where the input ends or where \<open>~\<close> or \<open>)\<close> follows. \<open>parses\<close> says
  that \<open>_parse\<close>, given enough fuel and a call stack without a bound, reads the encoding
  of a value in front of such a rest and returns the value with the rest;
  \<open>parses_items\<close> and \<open>parses_pairs\<close> say the same of the two loops, for the elements
  of an array and the entries of a map.
\<close>

definition boundary :: "jsstring \<Rightarrow> bool" where
  "boundary rest \<longleftrightarrow> rest = [] \<or> peek rest = Some tilde \<or> peek rest = Some rparen"

definition parses :: "platform \<Rightarrow> jsval \<Rightarrow> bool" where
  "parses P v \<longleftrightarrow>
     (\<exists>N. \<forall>n\<ge>N. \<forall>rest. boundary rest \<longrightarrow> parse' P \<infinity> n (stringify' P v @ rest) = Some (Inr (v, rest)))"

definition parses_items :: "platform \<Rightarrow> jsval list \<Rightarrow> bool" where
  "parses_items P items \<longleftrightarrow>
     (\<exists>N. \<forall>n\<ge>N. \<forall>acc rest.
        parse_array P \<infinity> n acc (stringify_items P items @ rparen # rest)
          = Some (Inr (JArr (acc @ items), rest)))"

definition parses_pairs :: "platform \<Rightarrow> (jsstring \<times> jsval) list \<Rightarrow> bool" where
  "parses_pairs P kvs \<longleftrightarrow>
     (\<exists>N. \<forall>n\<ge>N. \<forall>acc rest.
        distinct (map fst acc @ map fst kvs)
        \<and> list_all later_key (map fst (tl kvs))
        \<and> (acc \<noteq> [] \<longrightarrow> later_key (fst (hd kvs)))
        \<longrightarrow> parse_object P \<infinity> n (JObj acc) (join [tilde] (stringify_pairs P kvs) @ rparen # rest)
              = Some (Inr (JObj (acc @ kvs), rest)))"

section \<open>Service detection\<close>

text \<open>
  The parts of \<open>window.location\<close> that the content script reads.
\<close>

record location =
  href :: jsstring
  pathname :: jsstring
  search :: jsstring
  hash :: jsstring

text \<open>
  The tags returned by \<open>detectService\<close>. The source returns the strings
  "cloudwatch-metrics", "cloudwatch-logs-insights", "cloudwatch-logs", "xray",
  "cloudwatch-generic", "cloudwatch-other", "unknown" and "not-aws".
\<close>

datatype service =
  CloudwatchMetrics | CloudwatchLogsInsights | CloudwatchLogs | Xray
  | CloudwatchGeneric | CloudwatchOther | Unknown | NotAws

text \<open>
  \<open>detectService\<close> of the content script in \<open>src/unnamed/part_001\<close> (the revision with
  Log Events support), rule by rule in the order of the source.
\<close>

definition detectService :: "location \<Rightarrow> service" where
  "detectService loc =
    (if str_includes (pathname loc) (js ''/cloudwatch'') \<and> str_includes (hash loc) (js ''metricsV2'')
       then CloudwatchMetrics
     else if str_includes (pathname loc) (js ''/cloudwatch'')
          \<and> str_includes (hash loc) (js ''logsV2:log-groups'')
          \<and> str_includes (hash loc) (js ''logs-insights'')
       then CloudwatchLogsInsights
     else if str_includes (pathname loc) (js ''/cloudwatch'')
          \<and> (str_includes (hash loc) (js ''logs-insights'')
               \<or> str_includes (hash loc) (js ''logsV2'')
                 \<and> (str_includes (hash loc) (js ''queryDetail'')
                      \<or> str_includes (hash loc) (js ''queryDetail$3D'')))
       then CloudwatchLogsInsights
     else if str_includes (pathname loc) (js ''/cloudwatch'')
          \<and> str_includes (hash loc) (js ''logsV2:log-groups'')
          \<and> (str_includes (hash loc) (js ''$3Fstart$3D'') \<or> str_includes (hash loc) (js ''?start=''))
       then CloudwatchLogs
     else if str_includes (pathname loc) (js ''/xray'') \<or> str_includes (pathname loc) (js ''/x-ray'')
       then Xray
     else if str_includes (pathname loc) (js ''/cloudwatch'')
       then (if str_includes (hash loc) (js ''?~('') then CloudwatchGeneric else CloudwatchOther)
     else if str_includes (href loc) (js ''.console.aws.amazon.com'')
       then Unknown
     else NotAws)"

text \<open>
  \<open>detectService\<close> of \<open>src/content/content.js\<close>: no Log Events rule, and the generic
  rule looks for \<open>:?~(\<close>, the question mark right after the section separator.
\<close>

definition content_detectService :: "location \<Rightarrow> service" where
  "content_detectService loc =
    (if str_includes (pathname loc) (js ''/cloudwatch'') \<and> str_includes (hash loc) (js ''metricsV2'')
       then CloudwatchMetrics
     else if str_includes (pathname loc) (js ''/cloudwatch'')
          \<and> str_includes (hash loc) (js ''logsV2:log-groups'')
          \<and> str_includes (hash loc) (js ''logs-insights'')
       then CloudwatchLogsInsights
     else if str_includes (pathname loc) (js ''/cloudwatch'')
          \<and> (str_includes (hash loc) (js ''logs-insights'')
               \<or> str_includes (hash loc) (js ''logsV2'') \<and> str_includes (hash loc) (js ''queryDetail''))
       then CloudwatchLogsInsights
     else if str_includes (pathname loc) (js ''/xray'') \<or> str_includes (pathname loc) (js ''/x-ray'')
       then Xray
     else if str_includes (pathname loc) (js ''/cloudwatch'')
       then (if str_includes (hash loc) (js '':?~('') then CloudwatchGeneric else CloudwatchOther)
     else if str_includes (href loc) (js ''.console.aws.amazon.com'')
       then Unknown
     else NotAws)"

text \<open>
  The dashboard address recorded in the repository's notes on URL patterns:
  a path segment stands between the section separator and the question mark.
\<close>

definition dashboard_location :: location where
  "dashboard_location =
    \<lparr> href = js ''https://console.aws.amazon.com/cloudwatch/home?region=ap-northeast-1#home:dashboards/ApplicationELB?~(timeRange~43200000)'',
      pathname = js ''/cloudwatch/home'',
      search = js ''?region=ap-northeast-1'',
      hash = js ''#home:dashboards/ApplicationELB?~(timeRange~43200000)'' \<rparr>"

section \<open>Properties of the codec: encoding\<close>

declare hex_upper.simps [simp del] dec_digits.simps [simp del]

text \<open>Fuel written as a numeral, for evaluating the parser on concrete inputs.\<close>

lemma fuel_numerals:
  "(3::nat) = Suc (Suc (Suc 0))"
  "(4::nat) = Suc (Suc (Suc (Suc 0)))"
  "(5::nat) = Suc (Suc (Suc (Suc (Suc 0))))"
  "(6::nat) = Suc (Suc (Suc (Suc (Suc (Suc 0)))))"
  by simp_all

text \<open>
  The call stack in evaluations, and the two ways in which the bounds of the embedding
  do not matter: a stack that admits as many calls as there is fuel never overflows, and
  more fuel does not change a result.
\<close>

lemma stack_enat: "enat n = 0 \<longleftrightarrow> n = 0" "enat n - 1 = enat (n - 1)"
  by (simp_all add: zero_enat_def one_enat_def)

lemma enat_pred_le: "enat (Suc n) \<le> stack \<Longrightarrow> enat n \<le> stack - 1 \<and> stack \<noteq> 0"
  by (cases stack) (auto simp: one_enat_def zero_enat_def)

lemma stack_irrelevant:
  "enat n \<le> stack \<Longrightarrow> parse' P stack n s = parse' P \<infinity> n s"
  "enat n \<le> stack \<Longrightarrow> parse_array P stack n arr s = parse_array P \<infinity> n arr s"
  "enat n \<le> stack \<Longrightarrow> parse_object P stack n obj s = parse_object P \<infinity> n obj s"
proof (induction n arbitrary: stack s arr obj)
  case 0
  { case 1 show ?case by simp
  next case 2 show ?case by simp
  next case 3 show ?case by simp }
next
  case (Suc n)
  { case 1
    from enat_pred_le [OF 1] have a: "enat n \<le> stack - 1" "stack \<noteq> 0" by auto
    show ?case
      using a Suc(2) [OF a(1)] Suc(3) [OF a(1)] by (cases s) simp_all
  next
    case 2
    then have a: "enat n \<le> stack" by (metis Suc_ile_eq order_less_imp_le)
    show ?case using Suc(1) [OF a] Suc(2) [OF a]
      by (simp split: option.splits sum.splits prod.splits)
  next
    case 3
    then have a: "enat n \<le> stack" by (metis Suc_ile_eq order_less_imp_le)
    show ?case using Suc(1) [OF a] Suc(3) [OF a]
      by (simp split: option.splits sum.splits prod.splits add: Let_def)
  }
qed

lemma fuel_mono:
  "parse' P stack n s = Some r \<Longrightarrow> n \<le> m \<Longrightarrow> parse' P stack m s = Some r"
  "parse_array P stack n arr s = Some r \<Longrightarrow> n \<le> m \<Longrightarrow> parse_array P stack m arr s = Some r"
  "parse_object P stack n obj s = Some r \<Longrightarrow> n \<le> m \<Longrightarrow> parse_object P stack m obj s = Some r"
proof (induction n arbitrary: stack s arr obj r m)
  case 0
  { case 1 then show ?case by simp
  next case 2 then show ?case by simp
  next case 3 then show ?case by simp }
next
  case (Suc n)
  { case 1
    then obtain m' where m: "m = Suc m'" "n \<le> m'" by (cases m) auto
    show ?case using 1(1) Suc(2) [of _ _ _ _ m'] Suc(3) [of _ _ _ _ m'] m(2) unfolding m(1)
      by (cases s) (auto split: if_splits)
  next
    case 2
    then obtain m' where m: "m = Suc m'" "n \<le> m'" by (cases m) auto
    show ?case using 2(1) Suc(1) [of _ _ _ m'] Suc(2) [of _ _ _ _ m'] m(2) unfolding m(1)
      by (auto split: option.splits sum.splits prod.splits if_splits simp del: parse'.simps)
  next
    case 3
    then obtain m' where m: "m = Suc m'" "n \<le> m'" by (cases m) auto
    show ?case using 3(1) Suc(1) [of _ _ _ m'] Suc(3) [of _ _ _ _ m'] m(2) unfolding m(1)
      by (auto split: option.splits sum.splits prod.splits if_splits simp: Let_def simp del: parse'.simps)
  }
qed

lemma JSURL_parse_stack:
  "enat fuel \<le> stack \<Longrightarrow> JSURL_parse P stack fuel t = JSURL_parse P \<infinity> fuel t"
  using stack_irrelevant(1) [of fuel stack P t] by (simp add: JSURL_parse_def)

lemma JSURL_tryParse_stack:
  "enat fuel \<le> stack \<Longrightarrow> JSURL_tryParse P stack fuel t d = JSURL_tryParse P \<infinity> fuel t d"
  using JSURL_parse_stack [of fuel stack P t] by (simp add: JSURL_tryParse_def)

lemmas eval_simps = js_def peek_def JSURL_parse_def JSURL_tryParse_def JSURL_stringify_def
  js_Number_def int_literal_def is_digit_def digits_value_def truthy_def set_prop_def set_own_def
  is_array_index_def starts_value_def number_text_def replace_chars_def example_stack_def stack_enat

lemma hex_upper_star: "hex_upper 42 = js ''2A''"
  by (simp add: hex_upper.simps [of 42] hex_upper.simps [of 2] hex_digit_def js_def)

lemma hex_upper_percent: "hex_upper 37 = js ''25''"
  by (simp add: hex_upper.simps [of 37] hex_upper.simps [of 2] hex_digit_def js_def)

lemma stringify_empty_iff: "stringify' P v = [] \<longleftrightarrow> v = Undefined"
  by (cases v) (auto simp: js_def split: jsnum.splits)

lemma stringify_items_map:
  "stringify_items P items =
     concat (map (\<lambda>x. if x = Undefined then js ''~null'' else stringify' P x) items)"
  by (induction items) (simp_all add: stringify_empty_iff)

lemma stringify_pairs_filter:
  "stringify_pairs P kvs =
     map (\<lambda>(k, v). replace_chars (\<lambda>c. c = bang \<or> c = apos \<or> c = star \<or> c = percent) encode' k
                       @ stringify' P v)
       (filter (\<lambda>(k, v). v \<noteq> Undefined) kvs)"
  by (induction kvs) (auto simp: stringify_empty_iff)

lemma stringify_items_null:
  "stringify_items P (map (\<lambda>x. if x = Undefined then Null else x) items) = stringify_items P items"
  by (induction items) (simp_all add: stringify_empty_iff)

lemma stringify_pairs_drop:
  "stringify_pairs P (filter (\<lambda>(k, v). v \<noteq> Undefined) kvs) = stringify_pairs P kvs"
  by (induction kvs) (auto simp: stringify_empty_iff)

text \<open>
  Claim C10. \<open>JSURL.stringify\<close> treats \<open>undefined\<close> asymmetrically. Only \<open>undefined\<close>
  has the empty encoding. In an array an \<open>undefined\<close> element is written as \<open>~null\<close>,
  so the array is written exactly as the array of the same length that holds \<open>null\<close> in
  its place; in a map a key whose value is \<open>undefined\<close> is left out, so the map is
  written exactly as the map without that key.
\<close>

theorem stringify_undefined_asymmetry:
  "(stringify' P v = [] \<longleftrightarrow> v = Undefined)
   \<and> JSURL_stringify P (JArr items) =
       tilde # lparen #
         concat (map (\<lambda>x. if x = Undefined then js ''~null'' else stringify' P x) items) @ [rparen]
   \<and> JSURL_stringify P (JArr items) =
       JSURL_stringify P (JArr (map (\<lambda>x. if x = Undefined then Null else x) items))
   \<and> length (map (\<lambda>x. if x = Undefined then Null else x) items) = length items
   \<and> JSURL_stringify P (JObj kvs) =
       JSURL_stringify P (JObj (filter (\<lambda>(k, v). v \<noteq> Undefined) kvs))"
  by (simp add: JSURL_stringify_def stringify_empty_iff stringify_items_map [symmetric]
      stringify_items_null stringify_pairs_drop)

theorem stringify_undefined_asymmetry_witness:
  "JSURL_stringify ascii_platform (JArr [Undefined, JBool True]) = js ''~(~null~true)''
   \<and> JSURL_stringify ascii_platform (JArr [Undefined, JBool True])
       = JSURL_stringify ascii_platform (JArr [Null, JBool True])
   \<and> JSURL_stringify ascii_platform (JObj [(js ''k'', Undefined), (js ''a'', Null)])
       = JSURL_stringify ascii_platform (JObj [(js ''a'', Null)])"
  using stringify_undefined_asymmetry
    [of ascii_platform Undefined "[Undefined, JBool True]" "[(js ''k'', Undefined), (js ''a'', Null)]"]
  by (simp add: eval_simps)







section \<open>Properties of the codec: decoding\<close>

lemma parse_nul:
  "stack \<noteq> 0 \<Longrightarrow> parse' P stack (Suc n) (js ''nul'') = Some (Inr (Undefined, js ''nul''))"
  by (simp add: js_def)

lemma parse_array_nul: "stack \<noteq> 0 \<Longrightarrow> parse_array P stack n arr (js ''nul'') = None"
proof (induction n arbitrary: arr)
  case 0
  then show ?case by simp
next
  case (Suc n)
  show ?case
  proof (cases n)
    case 0
    then show ?thesis by simp
  next
    case (Suc m)
    have "parse' P stack n (js ''nul'') = Some (Inr (Undefined, js ''nul''))"
      unfolding Suc using Suc.prems by (rule parse_nul)
    moreover have "peek (js ''nul'') \<noteq> Some rparen \<and> js ''nul'' \<noteq> []"
      by (simp add: js_def peek_def)
    ultimately show ?thesis using Suc.IH [OF Suc.prems, of "arr @ [Undefined]"]
      by (simp del: parse'.simps)
  qed
qed

lemma parse_array_tilde_nul:
  "parse_array P stack n [] (js ''~nul'') = None
   \<or> (stack = 0 \<and> parse_array P stack n [] (js ''~nul'') = Some (Inl RangeError))"
proof (cases n)
  case 0
  then show ?thesis by simp
next
  case (Suc m)
  show ?thesis
  proof (cases "stack = 0")
    case True
    then show ?thesis unfolding Suc by (cases m) (simp_all add: js_def)
  next
    case False
    have c: "parse' P stack m (js ''~nul'') = None
             \<or> parse' P stack m (js ''~nul'') = Some (Inr (Undefined, js ''nul''))"
      using False by (cases m) (simp_all add: js_def peek_def)
    have d: "peek (js ''nul'') \<noteq> Some rparen \<and> js ''nul'' \<noteq> []"
      by (simp add: js_def peek_def)
    show ?thesis
      unfolding Suc using c d parse_array_nul [OF False, of P m "[Undefined]"]
      by (auto simp del: parse'.simps)
  qed
qed

text \<open>
  The truncated address of the repository's notes, \<open>#home:?~(timeRange~181440000\<close>
  without the closing parenthesis, decodes to the map it started.
\<close>

lemma parse_truncated_state:
  "JSURL_parse ascii_platform example_stack 3 (js ''~(timeRange~181440000'')
     = Some (Inr (JObj [(js ''timeRange'', JNum (Fin 181440000))]))"
  unfolding fuel_numerals by (simp add: eval_simps)

text \<open>
  Claim C3. \<open>JSURL.parse\<close> on a proper prefix of a valid encoded container returns the
  structure built so far. The text \<open>~(~nul\<close> is a proper prefix of \<open>~(~null)\<close>, the
  encoding of the array that holds \<open>null\<close>. On it the loop that fills the array calls
  \<open>_parse\<close> at the letter \<open>n\<close>, which returns \<open>undefined\<close> without moving the cursor,
  and the loop condition stays true: for every amount of fuel there is no result, that
  is, \<open>JSURL.parse\<close> does not return. This holds for every call stack that admits the
  two nested activations of \<open>_parse\<close>; with a smaller one the call raises, so that for
  no call stack a value is returned.
\<close>

theorem parse_truncated_null_diverges:
  "JSURL_stringify P (JArr [Null]) = js ''~(~nul'' @ js ''l)''
   \<and> (\<forall>stack fuel v. JSURL_parse P stack fuel (js ''~(~nul'') \<noteq> Some (Inr v))
   \<and> (\<forall>stack fuel. 2 \<le> stack \<longrightarrow> JSURL_parse P stack fuel (js ''~(~nul'') = None)"
proof -
  have p: "parse' P stack fuel (js ''~(~nul'') = None
           \<or> (stack < 2 \<and> parse' P stack fuel (js ''~(~nul'') = Some (Inl RangeError))" for stack fuel
  proof (cases fuel)
    case 0
    then show ?thesis by simp
  next
    case (Suc n)
    show ?thesis
    proof (cases "stack = 0")
      case True
      then show ?thesis unfolding Suc by (simp add: js_def)
    next
      case False
      have a: "parse' P stack (Suc n) (js ''~(~nul'') = parse_array P (stack - 1) n [] (js ''~nul'')"
        using False by (simp add: js_def peek_def)
      have b: "stack - 1 = 0 \<Longrightarrow> stack < 2"
        by (cases stack) (auto simp: one_enat_def zero_enat_def numeral_eq_enat)
      show ?thesis
        unfolding Suc a using parse_array_tilde_nul [of P "stack - 1" n] b by auto
    qed
  qed
  have "JSURL_parse P stack fuel (js ''~(~nul'') \<noteq> Some (Inr v)" for stack fuel v
    using p [of stack fuel] by (auto simp: JSURL_parse_def js_def)
  moreover have "JSURL_parse P stack fuel (js ''~(~nul'') = None" if "2 \<le> stack" for stack fuel
    using p [of stack fuel] that by (auto simp: JSURL_parse_def js_def)
  ultimately show ?thesis by (simp add: JSURL_stringify_def js_def)
qed

theorem parse_truncated_null_diverges_witness:
  "2 \<le> example_stack \<and> JSURL_parse ascii_platform example_stack 1000 (js ''~(~nul'') = None"
proof -
  have "2 \<le> example_stack" by (simp add: example_stack_def numeral_eq_enat)
  then show ?thesis using parse_truncated_null_diverges [of ascii_platform] by blast
qed
section \<open>The round trip of the codec\<close>

lemma digit_char:
  assumes "d < 10"
  shows "is_digit (of_nat (0x30 + d)) \<and> unat (of_nat (0x30 + d) :: jschar) = 0x30 + d"
proof -
  have m: "(0x30 + d) mod 2 ^ LENGTH(16) = 0x30 + d" using assms by simp
  have u: "unat (of_nat (0x30 + d) :: jschar) = 0x30 + d"
    by (simp only: unat_of_nat m)
  have "(0x30 :: jschar) \<le> of_nat (0x30 + d) \<and> (of_nat (0x30 + d) :: jschar) \<le> 0x39"
    unfolding word_le_nat_alt u using assms by simp
  then have "is_digit (of_nat (0x30 + d))"
    unfolding is_digit_def .
  then show ?thesis using u by blast
qed

lemma digits_value_snoc: "digits_value (ds @ [c]) = 10 * digits_value ds + (unat c - 0x30)"
  by (simp add: digits_value_def)

lemma dec_digits_props:
  "dec_digits n \<noteq> [] \<and> list_all is_digit (dec_digits n) \<and> digits_value (dec_digits n) = n"
proof (induction n rule: dec_digits.induct)
  case (1 n)
  show ?case
  proof (cases "n < 10")
    case True
    then show ?thesis using digit_char [of n]
      by (simp add: dec_digits.simps [of n] digits_value_def)
  next
    case False
    then have ih: "dec_digits (n div 10) \<noteq> [] \<and> list_all is_digit (dec_digits (n div 10))
                   \<and> digits_value (dec_digits (n div 10)) = n div 10"
      using 1 by simp
    have d: "n mod 10 < 10" by simp
    show ?thesis
      using False ih digit_char [OF d]
      by (simp add: dec_digits.simps [of n] digits_value_snoc)
  qed
qed

lemma digit_chars: "is_digit c \<Longrightarrow> c \<noteq> tilde \<and> c \<noteq> rparen \<and> c \<noteq> lparen \<and> c \<noteq> apos \<and> c \<noteq> minus \<and> c \<noteq> plus
   \<and> c \<noteq> 0x6E \<and> c \<noteq> 0x74 \<and> c \<noteq> 0x66"
  by (auto simp: is_digit_def)

lemma int_literal_digits:
  assumes "ds \<noteq> []" "list_all is_digit ds"
  shows "int_literal ds = Some (int (digits_value ds))"
    and "int_literal (minus # ds) = Some (- int (digits_value ds))"
proof -
  obtain d ds' where ds: "ds = d # ds'" using assms(1) by (cases ds) auto
  then have "is_digit d" using assms(2) by simp
  then have "d \<noteq> minus" "d \<noteq> plus" using digit_chars by auto
  then show "int_literal ds = Some (int (digits_value ds))"
    using assms(2) by (simp add: int_literal_def ds)
  show "int_literal (minus # ds) = Some (- int (digits_value ds))"
    using assms by (simp add: int_literal_def)
qed

lemma number_text_int:
  assumes "\<bar>n\<bar> \<le> 2 ^ 53"
  shows "number_text P (of_int n) = int_text n"
proof -
  have a: "\<bar>(of_int n :: rat)\<bar> \<le> 2 ^ 53"
  proof -
    have "\<bar>(of_int n :: rat)\<bar> = of_int \<bar>n\<bar>" by simp
    also have "\<dots> \<le> of_int (2 ^ 53)" using assms by (simp only: of_int_le_iff)
    finally show ?thesis by simp
  qed
  show ?thesis using a by (simp add: number_text_def int_text_def)
qed

lemma js_Number_int_text:
  assumes "\<bar>n\<bar> \<le> 2 ^ 53"
  shows "js_Number P (int_text n) = Fin (of_int n)"
proof (cases "n < 0")
  case True
  let ?ds = "dec_digits (nat (- n))"
  have "int_literal (minus # ?ds) = Some (- int (digits_value ?ds))"
    using int_literal_digits(2) dec_digits_props by blast
  moreover have "digits_value ?ds = nat (- n)" using dec_digits_props by blast
  ultimately have "int_literal (int_text n) = Some n" using True by (simp add: int_text_def)
  then show ?thesis using assms True by (simp add: js_Number_def int_text_def)
next
  case False
  let ?ds = "dec_digits (nat n)"
  have "int_literal ?ds = Some (int (digits_value ?ds))"
    using int_literal_digits(1) dec_digits_props by blast
  moreover have "digits_value ?ds = nat n" using dec_digits_props by blast
  ultimately have "int_literal (int_text n) = Some n" using False by (simp add: int_text_def)
  moreover have "int_text n \<noteq> []" using False dec_digits_props by (simp add: int_text_def)
  ultimately show ?thesis using assms by (simp add: js_Number_def)
qed

lemma int_text_chars:
  "int_text n \<noteq> []"
  "\<forall>c \<in> set (int_text n). c \<noteq> tilde \<and> c \<noteq> rparen"
  "peek (int_text n) \<noteq> Some lparen" "peek (int_text n) \<noteq> Some apos"
  "peek (int_text n) \<noteq> Some 0x6E" "peek (int_text n) \<noteq> Some 0x74" "peek (int_text n) \<noteq> Some 0x66"
proof -
  have d: "\<forall>c \<in> set (dec_digits m). is_digit c" "dec_digits m \<noteq> []" for m
    using dec_digits_props [of m] by (auto simp: list_all_iff)
  show "int_text n \<noteq> []" using d by (simp add: int_text_def)
  show "\<forall>c \<in> set (int_text n). c \<noteq> tilde \<and> c \<noteq> rparen"
    using d digit_chars by (auto simp: int_text_def)
  have p: "peek (int_text n) = Some minus \<or> (\<exists>c. peek (int_text n) = Some c \<and> is_digit c)"
    using d [of "nat n"] by (cases "dec_digits (nat n)") (auto simp: int_text_def peek_def)
  show "peek (int_text n) \<noteq> Some lparen" "peek (int_text n) \<noteq> Some apos"
    "peek (int_text n) \<noteq> Some 0x6E" "peek (int_text n) \<noteq> Some 0x74" "peek (int_text n) \<noteq> Some 0x66"
    using p digit_chars by auto
qed

lemma parseInt_2A: "js_parseInt (take 2 (0x32 # 0x41 # r)) 16 = Some 42"
  by (simp add: js_parseInt_def js_def peek_def is_space_def radix_digit_def digit_val_def radix_value_def)

lemma parseInt_25: "js_parseInt (take 2 (0x32 # 0x35 # r)) 16 = Some 37"
  by (simp add: js_parseInt_def js_def peek_def is_space_def radix_digit_def digit_val_def radix_value_def)

lemma string_body_Cons:
  "c \<noteq> bang \<Longrightarrow> string_body (c # s) =
     (if c = apos then [bang] else if c = star then js ''*2A'' else if c = percent then js ''*25'' else [c])
     @ string_body s"
  by (auto simp: string_body_def replace_chars_def encode'_def hex_upper_star js_def)

lemma key_text_Cons:
  "c \<noteq> bang \<Longrightarrow> key_text (c # s) =
     (if c = apos then [bang] else if c = star then js ''*2A'' else if c = percent then js ''*25'' else [c])
     @ key_text s"
  by (auto simp: key_text_def replace_chars_def encode'_def hex_upper_star hex_upper_percent js_def)

lemma string_loop_body:
  assumes "safe_string s" "boundary rest"
  shows "string_loop acc (string_body s @ rest) = (acc @ s, rest)"
  using assms
proof (induction s arbitrary: acc)
  case Nil
  then show ?case
    by (cases rest) (auto simp: string_body_def replace_chars_def boundary_def peek_def)
next
  case (Cons c s)
  then have c: "c \<noteq> bang" "c \<noteq> tilde" "c \<noteq> rparen" and s: "safe_string s"
    by (auto simp: safe_string_def)
  have ih: "string_loop acc' (string_body s @ rest) = (acc' @ s, rest)" for acc'
    using Cons.IH [OF s Cons.prems(2)] .
  show ?case
  proof (cases "c = apos \<or> c = star \<or> c = percent")
    case True
    then show ?thesis
      using c ih parseInt_2A
      by (auto simp: string_body_Cons js_def peek_def fromCharCode_def)
  next
    case False
    then show ?thesis using c ih by (simp add: string_body_Cons)
  qed
qed

lemma key_loop_text:
  assumes "list_all (\<lambda>c. c \<noteq> bang \<and> c \<noteq> tilde \<and> c \<noteq> rparen \<and> c \<noteq> lparen) k"
  shows "key_loop acc (key_text k @ tilde # rest) = (acc @ k, tilde # rest)"
  using assms
proof (induction k arbitrary: acc)
  case Nil
  then show ?case by (simp add: key_text_def replace_chars_def)
next
  case (Cons c k)
  then have c: "c \<noteq> bang" "c \<noteq> tilde" "c \<noteq> rparen" "c \<noteq> lparen"
    and k: "list_all (\<lambda>c. c \<noteq> bang \<and> c \<noteq> tilde \<and> c \<noteq> rparen \<and> c \<noteq> lparen) k"
    by auto
  have ih: "key_loop acc' (key_text k @ tilde # rest) = (acc' @ k, tilde # rest)" for acc'
    using Cons.IH [OF k] .
  show ?case
  proof (cases "c = apos \<or> c = star \<or> c = percent")
    case True
    then show ?thesis
      using c ih parseInt_2A parseInt_25
      by (auto simp: key_text_Cons js_def peek_def fromCharCode_def)
  next
    case False
    then show ?thesis using c ih by (simp add: key_text_Cons)
  qed
qed

text \<open>The first character of the text of a key.\<close>

lemma key_text_first:
  assumes "list_all (\<lambda>c. c \<noteq> bang \<and> c \<noteq> tilde \<and> c \<noteq> rparen \<and> c \<noteq> lparen) k" "k \<noteq> []"
  shows "\<exists>c r. key_text k = c # r \<and> c \<noteq> tilde \<and> c \<noteq> rparen \<and> c \<noteq> lparen \<and> c \<noteq> apos
               \<and> (later_key k \<longrightarrow> \<not> starts_value (Some c))"
proof -
  obtain d k' where k: "k = d # k'" using assms(2) by (cases k) auto
  then have d: "d \<noteq> bang" "d \<noteq> tilde" "d \<noteq> rparen" "d \<noteq> lparen" using assms(1) by auto
  show ?thesis
    using d unfolding k
    by (auto simp: key_text_Cons js_def later_key_def starts_value_def is_digit_def)
qed

lemma stringify_starts_tilde: "safe_value v \<Longrightarrow> \<exists>r. stringify' P v = tilde # r"
  by (cases v) (auto simp: js_def safe_number_def split: jsnum.splits)

lemma join_Cons:
  "join sep (p # ps) @ x = p @ (if ps = [] then x else sep @ join sep ps @ x)"
  by (cases ps) auto

lemma safe_not_undefined: "safe_value v \<Longrightarrow> v \<noteq> Undefined"
  by auto

lemma stringify_pairs_safe:
  "safe_value v \<Longrightarrow> stringify_pairs P ((k, v) # kvs) = (key_text k @ stringify' P v) # stringify_pairs P kvs"
  using safe_not_undefined [of v] by (simp add: stringify_empty_iff key_text_def)

lemma stringify_pairs_empty: "safe_pairs kvs \<Longrightarrow> stringify_pairs P kvs = [] \<longleftrightarrow> kvs = []"
  using safe_not_undefined by (cases kvs) (auto simp: stringify_empty_iff)

lemma stringify_items_safe:
  "safe_value x \<Longrightarrow> stringify_items P (x # xs) = stringify' P x @ stringify_items P xs"
  using safe_not_undefined [of x] by (simp add: stringify_empty_iff)

lemma later_key_not_index: "later_key k \<Longrightarrow> \<not> is_array_index k"
  by (cases k) (auto simp: later_key_def is_array_index_def)

lemma set_prop_append:
  assumes "safe_key k" "k \<notin> fst ` set acc" "acc \<noteq> [] \<longrightarrow> later_key k"
  shows "set_prop (JObj acc) k v = JObj (acc @ [(k, v)])"
proof (cases "acc = []")
  case True
  then show ?thesis using assms(1) by (simp add: set_prop_def set_own_def safe_key_def)
next
  case False
  then have "\<not> is_array_index k" using assms(3) later_key_not_index by blast
  then show ?thesis using assms(1,2) by (simp add: set_prop_def set_own_def safe_key_def)
qed

lemma parse_null: "parse' P \<infinity> (Suc n) (js ''~null'' @ rest) = Some (Inr (Null, rest))"
  by (simp add: js_def peek_def)

lemma parse_true: "parse' P \<infinity> (Suc n) (js ''~true'' @ rest) = Some (Inr (JBool True, rest))"
  by (simp add: js_def peek_def)

lemma parse_false: "parse' P \<infinity> (Suc n) (js ''~false'' @ rest) = Some (Inr (JBool False, rest))"
  by (simp add: js_def peek_def)

lemma parse_number:
  assumes "\<bar>i\<bar> \<le> 2 ^ 53" "boundary rest"
  shows "parse' P \<infinity> (Suc n) (tilde # int_text i @ rest) = Some (Inr (JNum (Fin (of_int i)), rest))"
proof -
  let ?t = "int_text i"
  have ch: "\<forall>c \<in> set ?t. c \<noteq> tilde \<and> c \<noteq> rparen" by (rule int_text_chars)
  have b: "rest = [] \<or> \<not> (hd rest \<noteq> tilde \<and> hd rest \<noteq> rparen)"
    using assms(2) by (cases rest) (auto simp: boundary_def peek_def)
  have tw: "takeWhile (\<lambda>d. d \<noteq> tilde \<and> d \<noteq> rparen) (?t @ rest) = ?t"
    using ch b by (cases rest) (auto simp: takeWhile_append2 takeWhile_eq_all_conv [THEN iffD2])
  have dw: "dropWhile (\<lambda>d. d \<noteq> tilde \<and> d \<noteq> rparen) (?t @ rest) = rest"
    using ch b by (cases rest) (auto simp: dropWhile_append2)
  obtain c r where t: "?t = c # r" using int_text_chars(1) [of i] by (cases ?t) auto
  have p: "peek (?t @ rest) = peek ?t" by (simp add: t peek_def)
  show ?thesis
    using int_text_chars(3-7) [of i] tw dw js_Number_int_text [OF assms(1), of P]
    by (simp add: p del: takeWhile_append dropWhile_append)
qed

lemma items_boundary:
  "safe_values items \<Longrightarrow> boundary (stringify_items P items @ rparen # rest)"
proof (cases items)
  case Nil
  then show ?thesis by (simp add: boundary_def peek_def)
next
  case (Cons x xs)
  assume "safe_values items"
  then have "safe_value x" using Cons by simp
  then obtain r where "stringify' P x = tilde # r" using stringify_starts_tilde by blast
  then show ?thesis using Cons \<open>safe_value x\<close>
    by (simp add: stringify_items_safe boundary_def peek_def del: stringify_items.simps)
qed

lemma parses_items_step:
  assumes x: "safe_value x" "parses P x"
    and xs: "safe_values xs" "xs \<noteq> [] \<Longrightarrow> parses_items P xs"
  shows "parses_items P (x # xs)"
proof -
  from x(2) obtain N1 where N1:
    "\<And>n rest. n \<ge> N1 \<Longrightarrow> boundary rest \<Longrightarrow> parse' P \<infinity> n (stringify' P x @ rest) = Some (Inr (x, rest))"
    unfolding parses_def by blast
  obtain N2 where N2:
    "\<And>n acc rest. xs \<noteq> [] \<Longrightarrow> n \<ge> N2 \<Longrightarrow>
       parse_array P \<infinity> n acc (stringify_items P xs @ rparen # rest) = Some (Inr (JArr (acc @ xs), rest))"
  proof (cases "xs = []")
    case True
    then show ?thesis using that [of 0] by simp
  next
    case False
    from xs(2) [OF False] show ?thesis unfolding parses_items_def using that by blast
  qed
  have "parse_array P \<infinity> n acc (stringify_items P (x # xs) @ rparen # rest)
          = Some (Inr (JArr (acc @ x # xs), rest))" if n: "n \<ge> Suc (max N1 N2)" for n acc rest
  proof -
    obtain m where m: "n = Suc m" "m \<ge> N1" "m \<ge> N2" using n by (cases n) auto
    let ?R = "stringify_items P xs @ rparen # rest"
    have b: "boundary ?R" using xs(1) by (rule items_boundary)
    have p: "parse' P \<infinity> m (stringify' P x @ ?R) = Some (Inr (x, ?R))" using N1 [OF m(2) b] .
    have e: "stringify_items P (x # xs) @ rparen # rest = stringify' P x @ ?R"
      using x(1) by (simp add: stringify_items_safe del: stringify_items.simps)
    show ?thesis
    proof (cases "xs = []")
      case True
      then show ?thesis using p unfolding e m(1)
        by (simp add: peek_def del: parse'.simps)
    next
      case False
      then obtain y ys where ys: "xs = y # ys" by (cases xs) auto
      then have "safe_value y" using xs(1) by simp
      then obtain r where r: "stringify' P y = tilde # r" using stringify_starts_tilde by blast
      have c: "peek ?R \<noteq> Some rparen \<and> ?R \<noteq> []"
        using r \<open>safe_value y\<close>
        by (simp add: ys stringify_items_safe peek_def del: stringify_items.simps)
      have "parse_array P \<infinity> m (acc @ [x]) ?R = Some (Inr (JArr ((acc @ [x]) @ xs), rest))"
        using N2 [OF False m(3)] .
      then show ?thesis using p c unfolding e m(1)
        by (simp del: parse'.simps stringify_items.simps)
    qed
  qed
  then show ?thesis unfolding parses_items_def by blast
qed

lemma pairs_text:
  assumes "safe_value v"
  shows "join [tilde] (stringify_pairs P ((k, v) # kvs)) @ rparen # rest =
           key_text k @ stringify' P v
             @ (if stringify_pairs P kvs = [] then rparen # rest
                else tilde # join [tilde] (stringify_pairs P kvs) @ rparen # rest)"
proof -
  have "stringify_pairs P ((k, v) # kvs) = (key_text k @ stringify' P v) # stringify_pairs P kvs"
    using assms by (rule stringify_pairs_safe)
  then show ?thesis by (simp add: join_Cons del: stringify_pairs.simps join.simps)
qed

lemma parses_pairs_step:
  assumes k: "safe_key k"
    and v: "safe_value v" "parses P v"
    and kvs: "safe_pairs kvs" "kvs \<noteq> [] \<Longrightarrow> parses_pairs P kvs"
  shows "parses_pairs P ((k, v) # kvs)"
proof -
  from v(2) obtain N1 where N1:
    "\<And>n rest. n \<ge> N1 \<Longrightarrow> boundary rest \<Longrightarrow> parse' P \<infinity> n (stringify' P v @ rest) = Some (Inr (v, rest))"
    unfolding parses_def by blast
  obtain N2 where N2:
    "\<And>n acc rest. kvs \<noteq> [] \<Longrightarrow> n \<ge> N2 \<Longrightarrow>
       distinct (map fst acc @ map fst kvs) \<Longrightarrow> list_all later_key (map fst (tl kvs)) \<Longrightarrow>
       (acc \<noteq> [] \<longrightarrow> later_key (fst (hd kvs))) \<Longrightarrow>
       parse_object P \<infinity> n (JObj acc) (join [tilde] (stringify_pairs P kvs) @ rparen # rest)
         = Some (Inr (JObj (acc @ kvs), rest))"
  proof (cases "kvs = []")
    case True
    then show ?thesis using that [of 0] by simp
  next
    case False
    from kvs(2) [OF False] show ?thesis unfolding parses_pairs_def using that by blast
  qed
  have kc: "list_all (\<lambda>c. c \<noteq> bang \<and> c \<noteq> tilde \<and> c \<noteq> rparen \<and> c \<noteq> lparen) k"
    using k by (simp add: safe_key_def)
  obtain vr where vr: "stringify' P v = tilde # vr" using v(1) stringify_starts_tilde by blast
  have "parse_object P \<infinity> n (JObj acc) (join [tilde] (stringify_pairs P ((k, v) # kvs)) @ rparen # rest)
          = Some (Inr (JObj (acc @ (k, v) # kvs), rest))"
    if n: "n \<ge> Suc (max N1 N2)"
      and d: "distinct (map fst acc @ map fst ((k, v) # kvs))"
      and l: "list_all later_key (map fst (tl ((k, v) # kvs)))"
      and a: "acc \<noteq> [] \<longrightarrow> later_key (fst (hd ((k, v) # kvs)))"
    for n acc rest
  proof -
    obtain m where m: "n = Suc m" "m \<ge> N1" "m \<ge> N2" using n by (cases n) auto
    let ?R = "if stringify_pairs P kvs = [] then rparen # rest
              else tilde # join [tilde] (stringify_pairs P kvs) @ rparen # rest"
    have e: "join [tilde] (stringify_pairs P ((k, v) # kvs)) @ rparen # rest
               = key_text k @ stringify' P v @ ?R"
      using v(1) by (rule pairs_text)
    have b: "boundary ?R" by (simp add: boundary_def peek_def)
    have kl: "key_loop [] (key_text k @ stringify' P v @ ?R) = (k, stringify' P v @ ?R)"
      unfolding vr using key_loop_text [OF kc, of "[]"] by simp
    have p: "parse' P \<infinity> m (stringify' P v @ ?R) = Some (Inr (v, ?R))" using N1 [OF m(2) b] .
    have sp: "set_prop (JObj acc) k v = JObj (acc @ [(k, v)])"
      using k d a by (intro set_prop_append) auto
    show ?thesis
    proof (cases "kvs = []")
      case True
      then show ?thesis
        unfolding e m(1) using kl p sp
        by (simp add: peek_def del: parse'.simps)
    next
      case False
      then obtain k2 v2 kvs' where k2: "kvs = (k2, v2) # kvs'" by (cases kvs) auto
      then have s2: "safe_key k2" "safe_value v2" using kvs(1) by auto
      have ne: "stringify_pairs P kvs \<noteq> []"
        using False kvs(1) stringify_pairs_empty by blast
      let ?T = "join [tilde] (stringify_pairs P kvs) @ rparen # rest"
      have R: "?R = tilde # ?T" using False ne by simp
      obtain v2r where v2r: "stringify' P v2 = tilde # v2r"
        using s2(2) stringify_starts_tilde by blast
      have T: "?T = key_text k2 @ stringify' P v2
                 @ (if stringify_pairs P kvs' = [] then rparen # rest
                    else tilde # join [tilde] (stringify_pairs P kvs') @ rparen # rest)"
        unfolding k2 using s2(2) by (rule pairs_text)
      have l2: "later_key k2" using l k2 by simp
      have k2c: "list_all (\<lambda>c. c \<noteq> bang \<and> c \<noteq> tilde \<and> c \<noteq> rparen \<and> c \<noteq> lparen) k2"
        using s2(1) by (simp add: safe_key_def)
      have first: "\<exists>c r. ?T = c # r \<and> c \<noteq> rparen \<and> \<not> starts_value (Some c)"
      proof (cases "k2 = []")
        case True
        then show ?thesis unfolding T v2r
          by (simp add: key_text_def replace_chars_def starts_value_def)
      next
        case False
        from key_text_first [OF k2c False] l2 obtain c r where
          "key_text k2 = c # r" "c \<noteq> rparen" "\<not> starts_value (Some c)" by blast
        then show ?thesis unfolding T by simp
      qed
      then obtain c r where cr: "?T = c # r" "c \<noteq> rparen" "\<not> starts_value (Some c)" by blast
      have ih: "parse_object P \<infinity> m (JObj (acc @ [(k, v)])) ?T = Some (Inr (JObj ((acc @ [(k, v)]) @ kvs), rest))"
      proof (rule N2 [OF False m(3)])
        show "distinct (map fst (acc @ [(k, v)]) @ map fst kvs)" using d by simp
        show "list_all later_key (map fst (tl kvs))" using l by (simp add: k2)
        show "acc @ [(k, v)] \<noteq> [] \<longrightarrow> later_key (fst (hd kvs))" using l2 by (simp add: k2)
      qed
      show ?thesis
        unfolding e m(1) using kl p sp ih cr
        by (simp add: R peek_def del: parse'.simps)
    qed
  qed
  then show ?thesis unfolding parses_pairs_def by blast
qed

lemma roundtrip_mutual:
  "(safe_value v \<longrightarrow> parses P v)"
  "(safe_values items \<longrightarrow> items \<noteq> [] \<longrightarrow> parses_items P items)"
  "(safe_pairs kvs \<longrightarrow> kvs \<noteq> [] \<longrightarrow> parses_pairs P kvs)"
proof (induction v and items and kvs rule: safe_value_safe_values_safe_pairs.induct)
  case 1
  then show ?case by simp
next
  case 2
  have "parse' P \<infinity> n (stringify' P Null @ rest) = Some (Inr (Null, rest))" if "n \<ge> 1" for n rest
    using that parse_null [of P "n - 1" rest] by (cases n) simp_all
  then show ?case unfolding parses_def by blast
next
  case (3 b)
  have "parse' P \<infinity> n (stringify' P (JBool b) @ rest) = Some (Inr (JBool b, rest))" if "n \<ge> 1" for n rest
    using that parse_true [of P "n - 1" rest] parse_false [of P "n - 1" rest]
    by (cases n; cases b) simp_all
  then show ?case unfolding parses_def by blast
next
  case (4 x)
  show ?case
  proof
    assume "safe_value (JNum x)"
    then obtain r where x: "x = Fin r" and r: "of_int \<lfloor>r\<rfloor> = r" "\<bar>r\<bar> \<le> 2 ^ 53"
      by (cases x) (auto simp: safe_number_def)
    define i where "i = \<lfloor>r\<rfloor>"
    have ri: "r = of_int i" unfolding i_def by (rule r(1) [symmetric])
    have ib: "\<bar>i\<bar> \<le> 2 ^ 53"
    proof -
      have "(of_int \<bar>i\<bar> :: rat) \<le> of_int (2 ^ 53)" using r(2) by (simp add: ri)
      then show ?thesis by (simp only: of_int_le_iff)
    qed
    have t: "stringify' P (JNum x) = tilde # int_text i"
      using number_text_int [OF ib, of P] by (simp add: x ri)
    have "parse' P \<infinity> n (stringify' P (JNum x) @ rest) = Some (Inr (JNum x, rest))"
      if n1: "n \<ge> 1" and br: "boundary rest" for n rest
    proof -
      obtain m where "n = Suc m" using n1 by (cases n) auto
      then show ?thesis using parse_number [OF ib br, of P m]
        by (simp add: x ri number_text_int [OF ib] del: parse'.simps)
    qed
    then show "parses P (JNum x)" unfolding parses_def by blast
  qed
next
  case (5 s)
  show ?case
  proof
    assume "safe_value (JStr s)"
    then have s: "safe_string s" by simp
    have "parse' P \<infinity> n (stringify' P (JStr s) @ rest) = Some (Inr (JStr s, rest))"
      if n1: "n \<ge> 1" and br: "boundary rest" for n rest
    proof -
      obtain m where m: "n = Suc m" using n1 by (cases n) auto
      have "stringify' P (JStr s) @ rest = tilde # apos # string_body s @ rest"
        by (simp add: string_body_def)
      then show ?thesis
        using string_loop_body [OF s br, of "[]"] by (simp add: m peek_def)
    qed
    then show "parses P (JStr s)" unfolding parses_def by blast
  qed
next
  case (6 items)
  show ?case
  proof
    assume "safe_value (JArr items)"
    then have s: "safe_values items" by simp
    show "parses P (JArr items)"
    proof (cases "items = []")
      case True
      have "parse' P \<infinity> n (stringify' P (JArr []) @ rest) = Some (Inr (JArr [], rest))" if "n \<ge> 1" for n rest
        using that by (cases n) (simp_all add: peek_def)
      then show ?thesis unfolding parses_def True by blast
    next
      case False
      with 6 s obtain N where N: "\<And>n acc rest. n \<ge> N \<Longrightarrow>
          parse_array P \<infinity> n acc (stringify_items P items @ rparen # rest) = Some (Inr (JArr (acc @ items), rest))"
        unfolding parses_items_def by blast
      obtain x xs where xs: "items = x # xs" using False by (cases items) auto
      then have "safe_value x" using s by simp
      then obtain r where r: "stringify' P x = tilde # r" using stringify_starts_tilde by blast
      have st: "\<exists>t. stringify_items P items = tilde # t"
        using r \<open>safe_value x\<close> unfolding xs
        by (simp add: stringify_items_safe del: stringify_items.simps)
      then obtain t where t: "stringify_items P items = tilde # t" by blast
      have "parse' P \<infinity> n (stringify' P (JArr items) @ rest) = Some (Inr (JArr items, rest))"
        if nN: "n \<ge> Suc N" for n rest
      proof -
        obtain m where m: "n = Suc m" "m \<ge> N" using nN by (cases n) auto
        have "parse' P \<infinity> (Suc m) (stringify' P (JArr items) @ rest)
                = parse_array P \<infinity> m [] (stringify_items P items @ rparen # rest)"
          by (simp add: t peek_def)
        then show ?thesis using N [OF m(2), of "[]" rest] by (simp add: m(1) del: parse'.simps)
      qed
      then show ?thesis unfolding parses_def by blast
    qed
  qed
next
  case (7 kvs)
  show ?case
  proof
    assume a: "safe_value (JObj kvs)"
    then have ne: "kvs \<noteq> []" and k1: "fst (hd kvs) \<noteq> []" and d: "distinct (map fst kvs)"
      and l: "list_all later_key (map fst (tl kvs))" and s: "safe_pairs kvs" by auto
    have pp: "parses_pairs P kvs" using 7 ne k1 d l s by blast
    then obtain N where N0: "\<forall>n\<ge>N. \<forall>acc rest.
        distinct (map fst acc @ map fst kvs)
        \<and> list_all later_key (map fst (tl kvs))
        \<and> (acc \<noteq> [] \<longrightarrow> later_key (fst (hd kvs)))
        \<longrightarrow> parse_object P \<infinity> n (JObj acc) (join [tilde] (stringify_pairs P kvs) @ rparen # rest)
              = Some (Inr (JObj (acc @ kvs), rest))"
      unfolding parses_pairs_def by blast
    have N: "parse_object P \<infinity> n (JObj []) (join [tilde] (stringify_pairs P kvs) @ rparen # rest)
               = Some (Inr (JObj kvs, rest))" if "n \<ge> N" for n rest
      using N0 [rule_format, of n "[]" rest] that d l by simp
    obtain k v kvs' where kv: "kvs = (k, v) # kvs'" using ne by (cases kvs) auto
    then have sk: "safe_key k" "safe_value v" "k \<noteq> []" using s k1 by auto
    have kc: "list_all (\<lambda>c. c \<noteq> bang \<and> c \<noteq> tilde \<and> c \<noteq> rparen \<and> c \<noteq> lparen) k"
      using sk(1) by (simp add: safe_key_def)
    from key_text_first [OF kc sk(3)] obtain c r where
      c: "key_text k = c # r" "c \<noteq> tilde" "c \<noteq> rparen" by blast
    have "join [tilde] (stringify_pairs P kvs) @ rparen # rest
            = c # r @ stringify' P v
               @ (if stringify_pairs P kvs' = [] then rparen # rest
                  else tilde # join [tilde] (stringify_pairs P kvs') @ rparen # rest)" for rest
      unfolding kv using pairs_text [OF sk(2), of P k kvs' rest] c(1) by simp
    then obtain T where T: "\<And>rest. \<exists>t. join [tilde] (stringify_pairs P kvs) @ rparen # rest = c # t"
      by blast
    have "parse' P \<infinity> n (stringify' P (JObj kvs) @ rest) = Some (Inr (JObj kvs, rest))"
      if nN: "n \<ge> Suc N" for n rest
    proof -
      obtain m where m: "n = Suc m" "m \<ge> N" using nN by (cases n) auto
      obtain t where t: "join [tilde] (stringify_pairs P kvs) @ rparen # rest = c # t"
        using T by blast
      have "parse' P \<infinity> (Suc m) (stringify' P (JObj kvs) @ rest)
              = parse_object P \<infinity> m (JObj []) (join [tilde] (stringify_pairs P kvs) @ rparen # rest)"
        using c(2,3) by (simp add: t peek_def)
      then show ?thesis using N [OF m(2), of rest] by (simp add: m(1) del: parse'.simps)
    qed
    then show "parses P (JObj kvs)" unfolding parses_def by blast
  qed
next
  case (8 proto kvs)
  then show ?case by simp
next
  case 9
  then show ?case by simp
next
  case (10 item items)
  show ?case
  proof (intro impI)
    assume a: "safe_values (item # items)"
    then have "safe_value item" "safe_values items" by auto
    then show "parses_items P (item # items)"
      using 10 by (intro parses_items_step) auto
  qed
next
  case 11
  then show ?case by simp
next
  case (12 k v kvs)
  show ?case
  proof (intro impI)
    assume a: "safe_pairs ((k, v) # kvs)"
    then have "safe_key k" "safe_value v" "safe_pairs kvs" by auto
    then show "parses_pairs P ((k, v) # kvs)"
      using 12 by (intro parses_pairs_step) auto
  qed
qed

text \<open>
  The encoding of a value that the codec reproduces is read back by \<open>_parse\<close> whenever
  the fuel and the call stack exceed a bound that depends on the value.
\<close>

lemma parses_stack:
  assumes "safe_value v"
  shows "\<exists>N. \<forall>n\<ge>N. \<forall>stack\<ge>enat N. parse' P stack n (stringify' P v) = Some (Inr (v, []))"
proof -
  from roundtrip_mutual(1) [of v P] assms obtain N where
    N: "\<And>n rest. n \<ge> N \<Longrightarrow> boundary rest \<Longrightarrow>
          parse' P \<infinity> n (stringify' P v @ rest) = Some (Inr (v, rest))"
    unfolding parses_def by blast
  have "parse' P stack n (stringify' P v) = Some (Inr (v, []))"
    if f: "n \<ge> N" and s: "stack \<ge> enat N" for n stack
  proof -
    have "parse' P \<infinity> N (stringify' P v) = Some (Inr (v, []))"
      using N [of N "[]"] by (simp add: boundary_def)
    then have "parse' P stack N (stringify' P v) = Some (Inr (v, []))"
      using stack_irrelevant(1) [OF s, of P "stringify' P v"] by simp
    then show ?thesis using f by (rule fuel_mono(1))
  qed
  then show ?thesis by blast
qed

text \<open>
  Claim C1 states that \<open>JSURL.parse(JSURL.stringify(v))\<close> equals \<open>v\<close> for every value,
  maps included. The empty map and the empty array have the same encoding \<open>~()\<close>, and
  the decoder, as its comment says, takes \<open>~()\<close> for the empty array: the empty map does
  not come back.
\<close>

theorem empty_map_decodes_to_array:
  "JSURL_stringify ascii_platform (JObj []) = js ''~()''
   \<and> JSURL_parse ascii_platform example_stack 1 (JSURL_stringify ascii_platform (JObj []))
       = Some (Inr (JArr []))
   \<and> JArr [] \<noteq> JObj []"
  by (simp add: JSURL_stringify_def JSURL_parse_def js_def peek_def example_stack_def stack_enat)

text \<open>
  Claim C1, as amended. Let \<open>v\<close> be built from \<open>null\<close>, booleans, integers of magnitude
  at most \<open>2^53\<close>, strings without \<open>!\<close>, \<open>~\<close> and \<open>)\<close> (the empty string, the
  apostrophe, \<open>%\<close>, \<open>*\<close> and characters outside ASCII are allowed), arrays, and
  non-empty maps with distinct keys, where a key contains none of \<open>!\<close>, \<open>~\<close>, \<open>(\<close> and
  \<open>)\<close> and is not \<open>__proto__\<close>, the first key of a map is not empty, and the other
  keys do not begin with \<open>n\<close>, \<open>t\<close>, \<open>f\<close>, \<open>-\<close> or a digit. Then \<open>JSURL.parse\<close>
  returns on \<open>JSURL.stringify(v)\<close> (every sufficient amount of fuel gives a result, on
  every call stack that admits sufficiently many nested calls, bounded or not), and the
  result is \<open>v\<close>.
\<close>

theorem roundtrip:
  assumes "safe_value v"
  shows "\<exists>N. \<forall>fuel\<ge>N. \<forall>stack\<ge>enat N.
           JSURL_parse P stack fuel (JSURL_stringify P v) = Some (Inr v)"
proof -
  from parses_stack [OF assms, of P] obtain N where
    N: "\<And>n stack. n \<ge> N \<Longrightarrow> stack \<ge> enat N \<Longrightarrow>
          parse' P stack n (stringify' P v) = Some (Inr (v, []))"
    by blast
  have ne: "stringify' P v \<noteq> []" using assms stringify_empty_iff [of P v] by auto
  have "JSURL_parse P stack fuel (JSURL_stringify P v) = Some (Inr v)"
    if "fuel \<ge> N" "stack \<ge> enat N" for fuel stack
    using N [OF that] ne by (simp add: JSURL_parse_def JSURL_stringify_def)
  then show ?thesis by blast
qed

theorem roundtrip_witness:
  "safe_value example_value
   \<and> (\<exists>N. \<forall>fuel\<ge>N. \<forall>stack\<ge>enat N.
          JSURL_parse ascii_platform stack fuel (JSURL_stringify ascii_platform example_value)
            = Some (Inr example_value))"
proof -
  have s: "safe_value example_value"
    by (simp add: example_value_def safe_number_def safe_string_def safe_key_def later_key_def
        is_digit_def js_def)
  show ?thesis using s roundtrip [OF s, of ascii_platform] by blast
qed
section \<open>Properties of \<open>JSURL.tryParse\<close>\<close>

text \<open>
  Claim C4 states that \<open>JSURL.tryParse\<close> returns the default exactly when parsing raises
  or the text is malformed or empty, and otherwise the value that \<open>JSURL.parse\<close>
  produces. The text \<open>~0\<close> is the encoding of the number 0: \<open>JSURL.parse\<close> returns 0
  for it, and \<open>JSURL.tryParse\<close> returns the default.
\<close>

theorem tryParse_zero_gives_default:
  "JSURL_stringify ascii_platform (JNum (Fin 0)) = js ''~0''
   \<and> JSURL_parse ascii_platform example_stack 1 (js ''~0'') = Some (Inr (JNum (Fin 0)))
   \<and> JSURL_tryParse ascii_platform example_stack 1 (js ''~0'') (JStr (js ''default''))
       = Some (Inr (JStr (js ''default'')))"
  by (simp add: JSURL_stringify_def JSURL_tryParse_def JSURL_parse_def truthy_def js_def peek_def
      number_text_def dec_digits.simps [of 0] js_Number_def int_literal_def is_digit_def
      digits_value_def example_stack_def stack_enat)

text \<open>
  A text that nests containers deeper than the call stack admits: \<open>_parse\<close> raises, for
  every bound of the stack.
\<close>

lemma deep_nesting_raises:
  "Suc (2 * depth) \<le> fuel \<Longrightarrow>
     parse' P (enat depth) fuel (concat (replicate depth (js ''~('')) @ js ''~1'')
       = Some (Inl RangeError)"
proof (induction depth arbitrary: fuel)
  case 0
  then obtain n where "fuel = Suc n" by (cases fuel) auto
  then show ?case by (simp add: js_def zero_enat_def [symmetric])
next
  case (Suc depth)
  then obtain n where n: "fuel = Suc (Suc n)" "Suc (2 * depth) \<le> n"
    by (cases fuel; cases "fuel - 1") auto
  let ?t = "concat (replicate depth (js ''~('')) @ js ''~1''"
  have t: "peek ?t = Some tilde" by (cases depth) (simp_all add: js_def peek_def)
  have "parse' P (enat (Suc depth)) (Suc (Suc n)) (js ''~('' @ ?t) = parse_array P (enat depth) (Suc n) [] ?t"
    using t by (simp add: js_def peek_def stack_enat)
  also have "\<dots> = Some (Inl RangeError)"
    using Suc.IH [OF n(2)] by (simp del: parse'.simps)
  finally show ?case by (simp add: n(1))
qed

text \<open>
  Claim C4, as amended. \<open>JSURL.tryParse\<close> raises nothing, and it returns exactly when
  \<open>JSURL.parse\<close> returns or raises. It returns the default when \<open>JSURL.parse\<close> raises
  (the \<open>RangeError\<close> of a text that nests deeper than the call stack admits, which
  exists for every bound of the stack), when the text is empty or does not begin with
  \<open>~\<close>, and whenever the value that \<open>JSURL.parse\<close> returns is falsy (\<open>undefined\<close>,
  \<open>null\<close>, \<open>false\<close>, 0, NaN or the empty string, so also for the well-formed texts
  \<open>~null\<close>, \<open>~false\<close>, \<open>~0\<close> and \<open>~'\<close>); otherwise it returns the value that
  \<open>JSURL.parse\<close> produces, which for the encoding of a truthy value that the codec
  reproduces is that value.
\<close>

theorem tryParse_characterisation:
  "(\<forall>e. JSURL_tryParse P stack fuel t d \<noteq> Some (Inl e))
   \<and> (JSURL_tryParse P stack fuel t d = None \<longleftrightarrow> JSURL_parse P stack fuel t = None)
   \<and> (\<forall>e. JSURL_parse P stack fuel t = Some (Inl e) \<longrightarrow> JSURL_tryParse P stack fuel t d = Some (Inr d))
   \<and> (\<forall>v. JSURL_parse P stack fuel t = Some (Inr v) \<longrightarrow>
          JSURL_tryParse P stack fuel t d =
            Some (Inr (if v \<in> {Undefined, Null, JBool False, JNum (Fin 0), JNum NaN, JStr []}
                       then d else v)))
   \<and> (0 < fuel \<and> (t = [] \<or> peek t \<noteq> Some tilde) \<longrightarrow> JSURL_tryParse P stack fuel t d = Some (Inr d))
   \<and> (Suc (2 * depth) \<le> fuel \<longrightarrow>
        JSURL_tryParse P (enat depth) fuel (concat (replicate depth (js ''~('')) @ js ''~1'') d
          = Some (Inr d))
   \<and> (safe_value w \<and> truthy w \<longrightarrow>
        (\<exists>N. \<forall>n\<ge>N. \<forall>s\<ge>enat N. JSURL_tryParse P s n (JSURL_stringify P w) d = Some (Inr w)))"
proof (intro conjI allI impI)
  fix e show "JSURL_tryParse P stack fuel t d \<noteq> Some (Inl e)"
    by (simp add: JSURL_tryParse_def split: option.splits sum.splits)
next
  show "JSURL_tryParse P stack fuel t d = None \<longleftrightarrow> JSURL_parse P stack fuel t = None"
    by (simp add: JSURL_tryParse_def split: option.splits sum.splits)
next
  fix e assume "JSURL_parse P stack fuel t = Some (Inl e)"
  then show "JSURL_tryParse P stack fuel t d = Some (Inr d)"
    by (simp add: JSURL_tryParse_def)
next
  fix v assume "JSURL_parse P stack fuel t = Some (Inr v)"
  then show "JSURL_tryParse P stack fuel t d =
      Some (Inr (if v \<in> {Undefined, Null, JBool False, JNum (Fin 0), JNum NaN, JStr []} then d else v))"
    by (auto simp: JSURL_tryParse_def truthy_def split: jsval.splits)
next
  assume a: "0 < fuel \<and> (t = [] \<or> peek t \<noteq> Some tilde)"
  then obtain n where n: "fuel = Suc n" by (cases fuel) auto
  show "JSURL_tryParse P stack fuel t d = Some (Inr d)"
    using a unfolding n
    by (cases t) (auto simp: JSURL_tryParse_def JSURL_parse_def truthy_def peek_def)
next
  assume "Suc (2 * depth) \<le> fuel"
  then have "parse' P (enat depth) fuel (concat (replicate depth (js ''~('')) @ js ''~1'')
               = Some (Inl RangeError)"
    by (rule deep_nesting_raises)
  then show "JSURL_tryParse P (enat depth) fuel (concat (replicate depth (js ''~('')) @ js ''~1'') d
               = Some (Inr d)"
    by (simp add: JSURL_tryParse_def JSURL_parse_def js_def)
next
  assume a: "safe_value w \<and> truthy w"
  then obtain N where N: "\<And>n s. n \<ge> N \<Longrightarrow> s \<ge> enat N \<Longrightarrow>
      parse' P s n (stringify' P w) = Some (Inr (w, []))"
    using parses_stack [of w P] by blast
  have ne: "stringify' P w \<noteq> []" using a stringify_empty_iff [of P w] by auto
  have "JSURL_tryParse P s n (JSURL_stringify P w) d = Some (Inr w)" if "n \<ge> N" "s \<ge> enat N" for n s
    using N [OF that] ne a by (simp add: JSURL_tryParse_def JSURL_parse_def JSURL_stringify_def)
  then show "\<exists>N. \<forall>n\<ge>N. \<forall>s\<ge>enat N. JSURL_tryParse P s n (JSURL_stringify P w) d = Some (Inr w)"
    by blast
qed

lemma deep_state_raises:
  "JSURL_parse ascii_platform example_stack 20001 deep_state = Some (Inl RangeError)"
proof -
  have "parse' ascii_platform (enat 10000) 20001 deep_state = Some (Inl RangeError)"
    unfolding deep_state_def by (rule deep_nesting_raises) simp
  then show ?thesis by (simp add: JSURL_parse_def example_stack_def deep_state_def js_def)
qed

theorem tryParse_characterisation_witness:
  "JSURL_parse ascii_platform example_stack 20001 deep_state = Some (Inl RangeError)
   \<and> JSURL_tryParse ascii_platform example_stack 20001 deep_state Null = Some (Inr Null)
   \<and> JSURL_tryParse ascii_platform example_stack 3 (js ''~(~1)'') Null = Some (Inr (JArr [JNum (Fin 1)]))
   \<and> JSURL_tryParse ascii_platform example_stack 1 [] Null = Some (Inr Null)
   \<and> JSURL_tryParse ascii_platform example_stack 1 (js ''x'') Null = Some (Inr Null)
   \<and> JSURL_tryParse ascii_platform example_stack 1 (js ''~true'') Null = Some (Inr (JBool True))
   \<and> JSURL_tryParse ascii_platform example_stack 1 (js ''~false'') Null = Some (Inr Null)
   \<and> (\<exists>N. \<forall>n\<ge>N. \<forall>s\<ge>enat N.
          JSURL_tryParse ascii_platform s n (JSURL_stringify ascii_platform example_value) Null
            = Some (Inr example_value))"
proof -
  have b: "JSURL_parse ascii_platform example_stack 3 (js ''~(~1)'') = Some (Inr (JArr [JNum (Fin 1)]))"
    unfolding fuel_numerals by (simp add: eval_simps)
  have c: "JSURL_parse ascii_platform example_stack 1 (js ''~true'') = Some (Inr (JBool True))"
    "JSURL_parse ascii_platform example_stack 1 (js ''~false'') = Some (Inr (JBool False))"
    by (simp_all add: eval_simps)
  have s: "safe_value example_value \<and> truthy example_value"
    by (simp add: example_value_def safe_number_def safe_string_def safe_key_def later_key_def
        is_digit_def js_def truthy_def)
  have d: "deep_state = concat (replicate 10000 (js ''~('')) @ js ''~1''" "example_stack = enat 10000"
    "Suc (2 * 10000) \<le> (20001::nat)"
    by (simp_all add: deep_state_def example_stack_def)
  have e1: "JSURL_tryParse ascii_platform example_stack 20001 deep_state Null = Some (Inr Null)"
    using tryParse_characterisation [of ascii_platform example_stack 20001 deep_state Null 10000 Null]
      d(3) unfolding d(1,2) by blast
  have e2: "JSURL_tryParse ascii_platform example_stack 3 (js ''~(~1)'') Null = Some (Inr (JArr [JNum (Fin 1)]))"
    using tryParse_characterisation [of ascii_platform example_stack 3 "js ''~(~1)''" Null 0 Null] b
    by simp
  have e3: "JSURL_tryParse ascii_platform example_stack 1 [] Null = Some (Inr Null)"
    using tryParse_characterisation [of ascii_platform example_stack 1 "[]" Null 0 Null] by simp
  have e4: "JSURL_tryParse ascii_platform example_stack 1 (js ''x'') Null = Some (Inr Null)"
    using tryParse_characterisation [of ascii_platform example_stack 1 "js ''x''" Null 0 Null]
    by (simp add: js_def peek_def)
  have e5: "JSURL_tryParse ascii_platform example_stack 1 (js ''~true'') Null = Some (Inr (JBool True))"
    using tryParse_characterisation [of ascii_platform example_stack 1 "js ''~true''" Null 0 Null] c(1)
    by simp
  have e6: "JSURL_tryParse ascii_platform example_stack 1 (js ''~false'') Null = Some (Inr Null)"
    using tryParse_characterisation [of ascii_platform example_stack 1 "js ''~false''" Null 0 Null] c(2)
    by simp
  have e7: "\<exists>N. \<forall>n\<ge>N. \<forall>s\<ge>enat N.
          JSURL_tryParse ascii_platform s n (JSURL_stringify ascii_platform example_value) Null
            = Some (Inr example_value)"
    using tryParse_characterisation [of ascii_platform example_stack 1 "[]" Null 0 example_value] s
    by blast
  show ?thesis using deep_state_raises e1 e2 e3 e4 e5 e6 e7 by blast
qed

section \<open>Properties of the regular expressions\<close>

lemmas rx_eval = upper_ascii_def of_parseInt_def js_parseInt_def is_space_def radix_digit_def
  radix_value_def digit_val_def

lemma rx_item_match_split: "rx_item_match i s = Some (m, rest) \<Longrightarrow> s = m @ rest"
  by (cases i) (auto simp: prefix_def peek_def split: if_splits list.splits)

lemma rx_match_split: "rx_match items s = Some (ms, rest) \<Longrightarrow> s = concat ms @ rest"
proof (induction items arbitrary: s ms)
  case Nil
  then show ?case by simp
next
  case (Cons i items)
  then obtain m r ms' where a: "rx_item_match i s = Some (m, r)"
    and b: "rx_match items r = Some (ms', rest)" and c: "ms = m # ms'"
    by (auto split: option.splits)
  from a have "s = m @ r" by (rule rx_item_match_split)
  moreover from b have "r = concat ms' @ rest" by (rule Cons.IH)
  ultimately show ?case using c by simp
qed

lemma rx_search_match:
  "rx_search items t = Some (pre, ms, post) \<Longrightarrow>
     \<exists>s. t = pre @ s \<and> rx_match items s = Some (ms, post)"
proof (induction t arbitrary: pre)
  case Nil
  then show ?case by (auto split: option.splits)
next
  case (Cons c cs)
  show ?case
  proof (cases "rx_match items (c # cs)")
    case (Some r)
    then show ?thesis using Cons.prems by (cases r) auto
  next
    case None
    then obtain pre' where p: "rx_search items cs = Some (pre', ms, post)" and q: "pre = c # pre'"
      using Cons.prems by (auto split: option.splits)
    from Cons.IH [OF p] obtain s where "cs = pre' @ s" "rx_match items s = Some (ms, post)" by blast
    then show ?thesis using q by auto
  qed
qed

lemma rx_search_split:
  "rx_search items t = Some (pre, ms, post) \<Longrightarrow> t = pre @ concat ms @ post"
  using rx_search_match rx_match_split by blast

lemma digit_not_space: "is_digit c \<Longrightarrow> \<not> is_space c"
  by (auto simp: is_digit_def is_space_def word_le_nat_alt)

lemma digit_radix10: "is_digit c \<Longrightarrow> radix_digit 10 c"
  by (auto simp: is_digit_def radix_digit_def digit_val_def unat_sub word_le_nat_alt)

lemma parseInt_digits:
  assumes "ds \<noteq> []" "list_all is_digit ds"
  shows "js_parseInt ds 10 = Some (int (radix_value 10 ds))"
    and "js_parseInt (minus # ds) 10 = Some (- int (radix_value 10 ds))"
proof -
  obtain d ds' where ds: "ds = d # ds'" using assms(1) by (cases ds) auto
  have d: "is_digit d" using assms(2) ds by simp
  have tw: "takeWhile (radix_digit 10) ds = ds"
    using assms(2) by (auto simp: list_all_iff digit_radix10 intro!: takeWhile_eq_all_conv [THEN iffD2])
  have nm: "d \<noteq> minus" "d \<noteq> plus" using d by (auto simp: is_digit_def)
  show "js_parseInt ds 10 = Some (int (radix_value 10 ds))"
    using assms(1) d nm digit_not_space [OF d] tw [unfolded ds]
    by (simp add: js_parseInt_def ds peek_def Let_def del: takeWhile_eq_all_conv takeWhile.simps)
  have ms: "\<not> is_space minus" by (simp add: is_space_def)
  show "js_parseInt (minus # ds) 10 = Some (- int (radix_value 10 ds))"
    using assms(1) ms by (simp add: js_parseInt_def peek_def Let_def tw del: takeWhile_eq_all_conv)
qed

lemma list_all_takeWhile: "list_all p (takeWhile p xs)"
  by (induction xs) auto

section \<open>Properties of the parsers\<close>

text \<open>
  The parser of \<open>src/unnamed/part_001\<close>: whenever the queryDetail value decodes to an
  object in Relative mode whose \<open>end\<close> is 0, the result is a time range whose end is the
  current time.
\<close>

lemma insights_relative_end_zero:
  assumes dec: "insights_decode P stack fuel h = Some (Inr obj)"
    and obj: "truthy obj"
    and e: "get_prop obj (js ''end'') = JNum (Fin 0)"
    and s: "get_prop obj (js ''start'') = JNum n \<or> get_prop obj (js ''start'') = JStr t"
    and rel: "get_prop obj (js ''timeType'') = JStr (js ''RELATIVE'')
              \<or> (\<exists>r. get_prop obj (js ''start'') = JNum (Fin r) \<and> r < 0)"
  shows "\<exists>r. parseCloudWatchLogsInsights P stack fuel now h = Some (Some r)
             \<and> tr_end r = Fin (of_int now)"
proof -
  have pres: "not_nullish (get_prop obj (js ''start'')) \<and> not_nullish (get_prop obj (js ''end''))"
    using e s by (auto simp: not_nullish_def)
  have conv: "number_or_parseInt P (get_prop obj (js ''start'')) \<noteq> None"
    using s by (auto simp: number_or_parseInt_def)
  have cond: "get_prop obj (js ''timeType'') = JStr (js ''RELATIVE'')
        \<or> (case get_prop obj (js ''start'') of JNum n \<Rightarrow> num_less n (Fin 0) | _ \<Rightarrow> False)"
    using rel by auto
  show ?thesis
    using dec obj pres conv cond
    by (auto simp: parseCloudWatchLogsInsights_def insights_start_end_def)
qed


lemma insights_decode_hashA:
  "insights_decode ascii_platform example_stack 6 insights_hashA =
     Some (Inr (JObj [(js ''end'', JNum (Fin 0)), (js ''start'', JNum (Fin (- 3600))), ([], Undefined),
                      (js ''timeType'', JStr (js ''RELATIVE''))]))"
  unfolding fuel_numerals
  by (simp add: insights_decode_def insights_formatA_def insights_hashA_def eval_simps
      ascii_platform_def rx_eval)

lemma insights_decode_hashB:
  "insights_decode ascii_platform example_stack 6 insights_hashB =
     Some (Inr (JObj [(js ''end'', JNum (Fin 0)), (js ''start'', JNum (Fin (- 43200))), ([], Undefined),
                      (js ''timeType'', JStr (js ''RELATIVE''))]))"
  unfolding fuel_numerals
  by (simp add: insights_decode_def insights_formatA_def insights_formatB_def insights_hashB_def
      eval_simps ascii_platform_def rx_eval)

lemma insights_hashA_end_is_now:
  "\<exists>r. parseCloudWatchLogsInsights ascii_platform example_stack 6 1700000000000 insights_hashA
         = Some (Some r)
       \<and> tr_end r = Fin 1700000000000"
  using insights_relative_end_zero [OF insights_decode_hashA, of "Fin (- 3600)" "[]" 1700000000000]
  by (simp add: truthy_def js_def)

lemma insights_hashB_end_is_now:
  "\<exists>r. parseCloudWatchLogsInsights ascii_platform example_stack 6 1700000000000 insights_hashB
         = Some (Some r)
       \<and> tr_end r = Fin 1700000000000"
  using insights_relative_end_zero [OF insights_decode_hashB, of "Fin (- 43200)" "[]" 1700000000000]
  by (simp add: truthy_def js_def)

text \<open>
  Claim C2. A Logs Insights queryDetail value that decodes to an object in Relative mode
  with \<open>end\<close> 0 yields a time range whose end is the current time, not \<open>null\<close>: the
  presence check on \<open>end\<close> accepts 0. The parser of \<open>src/content/content.js\<close> tests
  \<open>obj.start && obj.end\<close>: on the Format A address of the notes, whose value decodes
  to \<open>end\<close> 0, \<open>start\<close> -3600 and \<open>timeType\<close> RELATIVE, it returns \<open>null\<close>.
  (The revision in \<open>src/unnamed/part_001\<close> tests \<open>!= null\<close> and satisfies the claim,
  see \<open>insights_relative_end_zero\<close>.)
\<close>

theorem content_parser_drops_zero_end:
  "insights_decode ascii_platform example_stack 6 insights_hashA =
     Some (Inr (JObj [(js ''end'', JNum (Fin 0)), (js ''start'', JNum (Fin (- 3600))), ([], Undefined),
                      (js ''timeType'', JStr (js ''RELATIVE''))]))
   \<and> content_parseCloudWatchLogsInsights ascii_platform example_stack 6 1700000000000 insights_hashA
       = Some None"
  unfolding fuel_numerals
  by (simp add: content_parseCloudWatchLogsInsights_def insights_decode_def insights_formatA_def
      insights_hashA_def eval_simps ascii_platform_def rx_eval)

text \<open>
  Claim C8. In a Log Events address \<open>end\<close>, when present, follows the sign convention
  of \<open>start\<close>: a negative value is an offset from now, a non-negative value an absolute
  time; the comment of \<open>parseCloudWatchLogs\<close> states this rule for both parameters. The
  parser reads \<open>end\<close> in the mode that the sign of \<open>start\<close> selects. With the negative
  \<open>start\<close> -1800000, the non-negative \<open>end\<close> 1700000000000 is not taken as an absolute
  time: the end of the range is the current time. With the non-negative \<open>start\<close>
  1700000000000, the negative \<open>end\<close> -1800000 is not taken as an offset from now: the
  end of the range is -1800000 itself.
\<close>

theorem logs_relative_start_absolute_end:
  "logs_startVal ascii_platform logs_hash = Some (Fin (- 1800000))
   \<and> logs_endVal ascii_platform logs_hash = Some (Fin 1700000000000)
   \<and> map_option tr_end (parseCloudWatchLogs ascii_platform 1700003600000 logs_hash)
       = Some (Fin 1700003600000)
   \<and> logs_startVal ascii_platform logs_hash_absolute_start = Some (Fin 1700000000000)
   \<and> logs_endVal ascii_platform logs_hash_absolute_start = Some (Fin (- 1800000))
   \<and> map_option tr_end (parseCloudWatchLogs ascii_platform 1700003600000 logs_hash_absolute_start)
       = Some (Fin (- 1800000))"
  by (simp add: parseCloudWatchLogs_def logs_startVal_def logs_endVal_def logs_normalized_def
      int_param_def logs_hash_def logs_hash_absolute_start_def eval_simps rx_eval)
section \<open>Properties of the injectors\<close>

lemma rewrites_matchI:
  "rx_search items a = Some (pre, ms, post) \<Longrightarrow> rewrites_match items a (pre @ mid @ post)"
  by (simp add: rewrites_match_def suffix_def)


lemma assign_hash_id: "peek v = Some hashmark \<Longrightarrow> drop 1 v \<noteq> [] \<Longrightarrow> assign_hash v = v"
  by (cases v) (auto simp: assign_hash_def strip_hash_def peek_def)

lemma assign_strip_id:
  "peek v = Some hashmark \<Longrightarrow> peek (drop 1 v) \<noteq> Some hashmark \<Longrightarrow> drop 1 v \<noteq> [] \<Longrightarrow>
     assign_hash (strip_hash v) = v"
  by (cases v) (auto simp: assign_hash_def strip_hash_def peek_def split: list.splits)

lemma get_substitution_nonempty:
  "c \<noteq> dollar \<Longrightarrow> get_substitution m pre post caps (c # t) \<noteq> []"
  by (cases t) auto

lemma params_set_others:
  "filter (\<lambda>(k, x). k \<noteq> name) (params_set name v ps) = filter (\<lambda>(k, x). k \<noteq> name) ps"
  by (induction ps) auto


text \<open>
  A replacement in a fragment that starts with \<open>#\<close>, where the match starts after the
  \<open>#\<close> and the replacement is not empty: the fragment that results differs from the old
  one only inside the match.
\<close>

lemma replaced_hash_rewrites:
  assumes h: "peek h = Some hashmark"
    and s: "rx_search items h = Some (pre, ms, post)"
    and pre: "pre \<noteq> []"
    and t: "get_substitution (concat ms) pre post (caps ms) t \<noteq> []"
  shows "rewrites_match items h (assign_hash (js_replace items caps t h))"
proof -
  let ?v = "js_replace items caps t h"
  have v: "?v = pre @ get_substitution (concat ms) pre post (caps ms) t @ post"
    using s by (simp add: js_replace_def)
  have "h = pre @ concat ms @ post" using s by (rule rx_search_split)
  then have "peek pre = Some hashmark" using h pre by (cases pre) (auto simp: peek_def)
  then have "peek ?v = Some hashmark" "drop 1 ?v \<noteq> []"
    using v pre t by (cases pre; auto simp: peek_def)+
  then have "assign_hash ?v = ?v" by (rule assign_hash_id)
  then show ?thesis using v s by (simp add: rewrites_matchI)
qed

text \<open>A match that starts with a literal character other than \<open>#\<close> starts after the \<open>#\<close>.\<close>

lemma match_after_hashmark:
  assumes h: "peek h = Some hashmark"
    and s: "rx_search (i # items) h = Some (pre, ms, post)"
    and i: "\<And>t m r. rx_item_match i t = Some (m, r) \<Longrightarrow> peek t \<noteq> Some hashmark"
  shows "pre \<noteq> []"
proof
  assume "pre = []"
  with rx_search_match [OF s] have "rx_match (i # items) h = Some (ms, post)" by simp
  then obtain m r where "rx_item_match i h = Some (m, r)" by (auto split: option.splits)
  from i [OF this] h show False by simp
qed

lemma lit_not_hashmark:
  "peek l \<noteq> Some hashmark \<Longrightarrow> l \<noteq> [] \<Longrightarrow> rx_item_match (Lit l) t = Some (m, r) \<Longrightarrow> peek t \<noteq> Some hashmark"
  by (cases l; cases t) (auto simp: peek_def split: if_splits)

lemma litci_not_hashmark:
  "l \<noteq> [] \<Longrightarrow> upper_ascii (hd l) \<noteq> hashmark \<Longrightarrow> rx_item_match (LitCI l) t = Some (m, r) \<Longrightarrow>
     peek t \<noteq> Some hashmark"
  by (cases l; cases t) (auto simp: peek_def upper_ascii_def split: if_splits)

lemma metrics_inject_frame:
  assumes h: "peek h = Some hashmark"
    and r: "injectCloudWatchMetrics P stack fuel tr h = Some (Some new)"
  shows "rewrites_match [Lit (js ''graph=''), StarNot [amp, semicolon]] h new"
proof -
  let ?rx = "[Lit (js ''graph=''), StarNot [amp, semicolon]]"
  from r obtain pre lit graphStr post where s: "rx_search ?rx h = Some (pre, [lit, graphStr], post)"
    by (auto simp: injectCloudWatchMetrics_def split: option.splits list.splits sum.splits)
  from r s obtain obj where new: "new = assign_hash (js_replace ?rx (\<lambda>ms. []) (js ''graph='' @ JSURL_stringify P obj) h)"
    by (auto simp: injectCloudWatchMetrics_def split: option.splits if_splits sum.splits)
  have pre: "pre \<noteq> []"
    by (rule match_after_hashmark [OF h s], erule lit_not_hashmark [rotated 2])
       (simp_all add: js_def peek_def)
  have t: "get_substitution (concat [lit, graphStr]) pre post [] (js ''graph='' @ JSURL_stringify P obj) \<noteq> []"
    using get_substitution_nonempty [of "0x67"] by (simp add: js_def)
  show ?thesis unfolding new using replaced_hash_rewrites [OF h s pre, of "\<lambda>ms. []"] t by simp
qed


lemma insights_inject_frame:
  assumes h: "peek h = Some hashmark"
    and r: "injectCloudWatchLogsInsights P stack fuel tr h = Some (Some new)"
  shows "rewrites_match [Lit (js ''queryDetail=''), StarNot [amp, semicolon]] h new
         \<or> rewrites_match [LitCI (js ''queryDetail$3D''), StarNot [amp, semicolon]] h new"
proof -
  let ?A = "[Lit (js ''queryDetail=''), StarNot [amp, semicolon]]"
  let ?B = "[LitCI (js ''queryDetail$3D''), StarNot [amp, semicolon]]"
  from r obtain obj isB where d: "insights_decode_format P stack fuel h = Some (Inr (obj, isB))"
    and tr: "truthy obj"
    by (auto simp: injectCloudWatchLogsInsights_def split: option.splits if_splits sum.splits)
  show ?thesis
  proof (cases isB)
    case True
    with d obtain pre lit raw post where s: "rx_search ?B h = Some (pre, [lit, raw], post)"
      by (auto simp: insights_decode_format_def split: option.splits if_splits list.splits sum.splits)
    from r d True obtain obj3 where
      new: "new = assign_hash (js_replace ?B (\<lambda>ms. []) (js ''queryDetail$3D'' @ JSURL_stringify P obj3) h)"
      by (auto simp: injectCloudWatchLogsInsights_def split: option.splits if_splits)
    have pre: "pre \<noteq> []"
      by (rule match_after_hashmark [OF h s], erule litci_not_hashmark [rotated 2])
         (simp_all add: js_def upper_ascii_def)
    have t: "get_substitution (concat [lit, raw]) pre post []
               (js ''queryDetail$3D'' @ JSURL_stringify P obj3) \<noteq> []"
      using get_substitution_nonempty [of "0x71"] by (simp add: js_def)
    show ?thesis unfolding new using replaced_hash_rewrites [OF h s pre, of "\<lambda>ms. []"] t by simp
  next
    case False
    with d tr obtain pre lit enc post where s: "rx_search ?A h = Some (pre, [lit, enc], post)"
      by (auto simp: insights_decode_format_def insights_formatA_def truthy_def
          split: option.splits if_splits list.splits sum.splits)
    from r d False obtain e where
      new: "new = assign_hash (js_replace ?A (\<lambda>ms. [])
                    (js ''queryDetail='' @ replace_chars (\<lambda>c. c = percent) (\<lambda>c. [dollar]) e) h)"
      by (auto simp: injectCloudWatchLogsInsights_def split: option.splits if_splits)
    have pre: "pre \<noteq> []"
      by (rule match_after_hashmark [OF h s], erule lit_not_hashmark [rotated 2])
         (simp_all add: js_def peek_def)
    have t: "get_substitution (concat [lit, enc]) pre post []
               (js ''queryDetail='' @ replace_chars (\<lambda>c. c = percent) (\<lambda>c. [dollar]) e) \<noteq> []"
      using get_substitution_nonempty [of "0x71"] by (simp add: js_def)
    show ?thesis unfolding new using replaced_hash_rewrites [OF h s pre, of "\<lambda>ms. []"] t by simp
  qed
qed

lemma generic_inject_frame:
  assumes h: "peek h = Some hashmark" "peek (drop 1 h) \<noteq> Some hashmark"
    and r: "injectCloudWatchGeneric P stack fuel tr h = Some (Some new)"
  shows "\<exists>pre ms post. rx_search [Lit (js ''?~('')] h = Some (pre, ms, post)
           \<and> prefix (pre @ js ''?'') new"
proof -
  from r obtain pre ms post where s: "rx_search [Lit (js ''?~('')] h = Some (pre, ms, post)"
    by (auto simp: injectCloudWatchGeneric_def split: option.splits)
  from r s obtain obj where
    new: "new = assign_hash (strip_hash (pre @ js ''?'') @ JSURL_stringify P obj)"
    by (auto simp: injectCloudWatchGeneric_def split: option.splits if_splits sum.splits)
  have pre: "pre \<noteq> []"
    by (rule match_after_hashmark [OF h(1) s], erule lit_not_hashmark [rotated 2])
       (simp_all add: js_def peek_def)
  have "h = pre @ concat ms @ post" using s by (rule rx_search_split)
  moreover have "concat ms = js ''?~(''"
    using rx_search_match [OF s] by (auto split: if_splits)
  ultimately have hh: "h = pre @ js ''?~('' @ post" by simp
  obtain p where p: "pre = hashmark # p" using h(1) pre hh by (cases pre) (auto simp: peek_def)
  have np: "peek (p @ js ''?'') \<noteq> Some hashmark"
    using h(2) hh p by (cases p) (auto simp: peek_def js_def)
  have "strip_hash (pre @ js ''?'') = p @ js ''?''" by (simp add: strip_hash_def p peek_def)
  then have "new = assign_hash (p @ js ''?'' @ JSURL_stringify P obj)" using new by simp
  also have "\<dots> = hashmark # p @ js ''?'' @ JSURL_stringify P obj"
    using np by (cases p) (auto simp: assign_hash_def strip_hash_def peek_def js_def)
  finally have "new = (pre @ js ''?'') @ JSURL_stringify P obj" using p by simp
  then show ?thesis using s by (auto simp: prefix_def)
qed







lemma logs_inject_double_hash_steps:
  "number_to_string ascii_platform (Fin 1700000000000) = js ''1700000000000''"
  "number_to_string ascii_platform (Fin 1700003600000) = js ''1700003600000''"
  "\<not> str_includes logs_double_hash (js ''$3F'')"
  "\<not> str_includes logs_double_hash (js ''$3D'')"
  "js_replace [OneOf [qmark, amp], Lit (js ''start=''), OptCh minus, Digits]
     (\<lambda>ms. [concat (take 1 ms)]) (js ''$1start='' @ js ''1700000000000'') logs_double_hash
   = js ''##logsV2:log-groups/log-group/g/log-events/s?start=1700000000000&tab=x''"
  "rx_search [OneOf [qmark, amp], Lit (js ''end=''), OptCh minus, Digits]
     (js ''##logsV2:log-groups/log-group/g/log-events/s?start=1700000000000&tab=x'') = None"
  "js_replace [Lit (js ''?start=''), OptCh minus, Digits] (\<lambda>ms. [concat ms])
     (js ''$1&end='' @ js ''1700003600000'')
     (js ''##logsV2:log-groups/log-group/g/log-events/s?start=1700000000000&tab=x'')
   = js ''##logsV2:log-groups/log-group/g/log-events/s?start=1700000000000&end=1700003600000&tab=x''"
  "assign_hash (strip_hash
     (js ''##logsV2:log-groups/log-group/g/log-events/s?start=1700000000000&end=1700003600000&tab=x''))
   = js ''#logsV2:log-groups/log-group/g/log-events/s?start=1700000000000&end=1700003600000&tab=x''"
  by (simp_all add: number_to_string_def number_text_def dec_digits.simps js_def
      logs_double_hash_def js_replace_def peek_def is_digit_def capture_of_def
      assign_hash_def strip_hash_def)

text \<open>
  The generic injector decodes everything after the question mark as the state and
  writes the prefix and the new state: a parameter that follows the state is lost.
\<close>

lemma generic_inject_drops_parameter:
  "injectCloudWatchGeneric ascii_platform example_stack 3 example_range
       (js ''#home:?~(timeRange~1)&tab=x'')
     = Some (Some (js ''#home:?~(timeRange~(~1700000000000~1700003600000))''))"
  unfolding fuel_numerals
  by (simp add: injectCloudWatchGeneric_def eval_simps example_range_def assign_prop_def
      assign_hash_def strip_hash_def dec_digits.simps ascii_platform_def)

text \<open>
  Claim C7. Injecting a time range rewrites only the time-bearing substring; every other
  character of the address stays as it is. The Metrics and Logs Insights injectors
  assign the rewritten fragment as it is and keep every character outside the located
  parameter (\<open>metrics_inject_frame\<close>, \<open>insights_inject_frame\<close>). The Log Events and
  generic injectors first remove a leading \<open>#\<close> from the text they assign, and the
  setter of \<open>window.location.hash\<close> removes a leading \<open>#\<close> again. For an address whose
  fragment itself starts with \<open>#\<close> (\<open>...home##logsV2:...\<close>), the Log Events injector
  leaves \<open>#logsV2:...\<close>: a character outside the \<open>start\<close> and \<open>end\<close> parameters is
  lost, while the unrelated parameter \<open>tab=x\<close> is kept.
\<close>

theorem logs_inject_drops_fragment_hashmark:
  "take 2 logs_double_hash = js ''##''
   \<and> injectCloudWatchLogs ascii_platform example_range logs_double_hash =
       Some (js ''#logsV2:log-groups/log-group/g/log-events/s?start=1700000000000&end=1700003600000&tab=x'')"
proof -
  have "take 2 logs_double_hash = js ''##''" by (simp add: logs_double_hash_def js_def)
  moreover have "injectCloudWatchLogs ascii_platform example_range logs_double_hash =
      Some (js ''#logsV2:log-groups/log-group/g/log-events/s?start=1700000000000&end=1700003600000&tab=x'')"
    unfolding injectCloudWatchLogs_def Let_def
    by (simp only: example_range_def timeRange.simps logs_inject_double_hash_steps
        simp_thms if_False if_True)
  ultimately show ?thesis by simp
qed





section \<open>Properties of service detection\<close>

lemma includes_iff: "str_includes hay needle \<longleftrightarrow> (\<exists>pre post. hay = pre @ needle @ post)"
proof (induction hay)
  case Nil
  then show ?case by auto
next
  case (Cons x xs)
  show ?case
  proof
    assume "str_includes (x # xs) needle"
    then consider "prefix needle (x # xs)" | "str_includes xs needle" by auto
    then show "\<exists>pre post. x # xs = pre @ needle @ post"
    proof cases
      case 1
      then obtain post where "x # xs = needle @ post" by (auto simp: prefix_def)
      then have "x # xs = [] @ needle @ post" by simp
      then show ?thesis by blast
    next
      case 2
      then obtain pre post where "xs = pre @ needle @ post" using Cons.IH by blast
      then have "x # xs = (x # pre) @ needle @ post" by simp
      then show ?thesis by blast
    qed
  next
    assume "\<exists>pre post. x # xs = pre @ needle @ post"
    then obtain pre post where eq: "x # xs = pre @ needle @ post" by blast
    show "str_includes (x # xs) needle"
    proof (cases pre)
      case Nil
      then have "prefix needle (x # xs)" using eq by (simp add: prefix_def)
      then show ?thesis by simp
    next
      case (Cons p ps)
      then have "xs = ps @ needle @ post" using eq by simp
      then have "str_includes xs needle" using Cons.IH by blast
      then show ?thesis by simp
    qed
  qed
qed

text \<open>
  The revised classifier returns the generic tag exactly for a CloudWatch address whose
  fragment holds \<open>?~(\<close> somewhere and that no earlier rule has claimed.
\<close>

lemma detectService_generic_iff:
  "detectService loc = CloudwatchGeneric \<longleftrightarrow>
     str_includes (pathname loc) (js ''/cloudwatch'')
     \<and> str_includes (hash loc) (js ''?~('')
     \<and> detectService loc \<notin> {CloudwatchMetrics, CloudwatchLogsInsights, CloudwatchLogs, Xray}"
  by (simp add: detectService_def)

lemma detectService_dashboard: "detectService dashboard_location = CloudwatchGeneric"
  by (simp add: detectService_def dashboard_location_def js_def)

text \<open>
  Claim C9. A CloudWatch address whose fragment contains \<open>?~(\<close> anywhere, also with a path
  segment between the \<open>:\<close> separator and the \<open>?\<close>, and that matches no more specific
  scheme, is classified as generic hash state. The classifier of
  \<open>src/content/content.js\<close> searches for \<open>:?~(\<close> instead: on the dashboard address it
  answers "cloudwatch-other", although the fragment contains \<open>?~(\<close> and no more specific
  rule applies. (The revision in \<open>src/unnamed/part_001\<close> classifies the same address as
  generic, see \<open>detectService_dashboard\<close> and \<open>detectService_generic_iff\<close>.)
\<close>

theorem content_detectService_misses_path_segment:
  "str_includes (pathname dashboard_location) (js ''/cloudwatch'')
   \<and> str_includes (hash dashboard_location) (js ''?~('')
   \<and> content_detectService dashboard_location = CloudwatchOther"
  by (simp add: content_detectService_def dashboard_location_def js_def)

end
